theory Spec2Isabelle
  imports Complex_Main "HOL-Library.Word"
begin

unbundle bit_operations_syntax

section \<open>Python values used by the driver\<close>

text \<open>
  The driver \<open>thorlabs_DDS100.py\<close> is one class, \<open>Controller\<close>, that talks to a KBD101
  servo driver over a serial port. Bytes are 8-bit words, Python's unbounded integers are
  \<open>int\<close>. Millimetre quantities are Python floats in the source; here they are exact
  rationals, so the rounding of binary64 arithmetic is not part of this development.
  Where the source computes with whole numbers of millimetres the two agree; where a
  result hangs on the last bit of a binary64 value they can differ: the source gets
  100.10000000000001 for 99.9 + 0.2 and for 200300 / 2000 - 0.05, which is above its
  100 + 0.1, and this development gets 100.1. A product too large for binary64 makes
  the source raise at \<open>round\<close>, before the position is assigned; here it is a count that
  \<open>to_bytes\<close> refuses, after. Statements about positions are statements about the exact
  values.
\<close>

type_synonym byte = "8 word"

text \<open>The exceptions the methods can raise.\<close>

datatype error =
    IOError
  | AssertionError
  | IndexError
  | AttributeError
  | OverflowError
  | UnicodeDecodeError
  | TypeError

text \<open>The slice \<open>xs[i:j]\<close> for literal bounds \<open>0 \<le> i \<le> j\<close>: it never raises, and is
  shorter than \<open>j - i\<close> when \<open>xs\<close> is too short.\<close>

definition py_slice :: "'a list \<Rightarrow> nat \<Rightarrow> nat \<Rightarrow> 'a list" where
  "py_slice xs i j = take (j - i) (drop i xs)"

text \<open>\<open>int.from_bytes(bs, byteorder='little')\<close>; the keyword \<open>signed\<close> defaults to
  \<open>False\<close>, and the empty byte string gives 0.\<close>

fun from_bytes_little :: "byte list \<Rightarrow> int" where
  "from_bytes_little [] = 0"
| "from_bytes_little (b # bs) = uint b + 256 * from_bytes_little bs"

text \<open>What \<open>int.from_bytes(bs, byteorder='little', signed=True)\<close> would give: the
  driver never calls it, the position reply is compared with it below.\<close>

definition from_bytes_little_signed :: "byte list \<Rightarrow> int" where
  "from_bytes_little_signed bs =
     (let u = from_bytes_little bs in
      if bs \<noteq> [] \<and> 2 ^ (8 * length bs - 1) \<le> u then u - 2 ^ (8 * length bs) else u)"

text \<open>\<open>n.to_bytes(4, byteorder='little', signed=True)\<close>: two's complement, and
  OverflowError (here \<open>None\<close>) when \<open>n\<close> does not fit 32 bits.\<close>

definition to_bytes4_signed :: "int \<Rightarrow> byte list option" where
  "to_bytes4_signed n =
     (if - (2 ^ 31) \<le> n \<and> n < 2 ^ 31
      then Some [word_of_int n, word_of_int (n div 256),
                 word_of_int (n div 65536), word_of_int (n div 16777216)]
      else None)"

text \<open>\<open>bs.decode('ascii')\<close>: UnicodeDecodeError (here \<open>None\<close>) on a byte above 127.\<close>

definition decode_ascii :: "byte list \<Rightarrow> string option" where
  "decode_ascii bs =
     (if list_all (\<lambda>b. b < 128) bs then Some (map (\<lambda>b. char_of (unat b)) bs) else None)"

text \<open>\<open>round(x)\<close> with one argument: the nearest integer, a tie going to the even one.\<close>

definition py_round :: "rat \<Rightarrow> int" where
  "py_round x =
     (let f = \<lfloor>x\<rfloor>; d = x - of_int f in
      if d < 1 / 2 then f
      else if 1 / 2 < d then f + 1
      else if even f then f else f + 1)"

section \<open>The serial port\<close>

text \<open>
  The driver uses three operations of the port: \<open>write\<close>, \<open>read(n)\<close>, which blocks
  until \<open>n\<close> bytes are there or the timeout of 15 s has passed and then returns what it
  has, and \<open>inWaiting()\<close>, the number of bytes in the receive buffer. The port is a record
  of the calls, the receive buffer, and the batches of bytes the device still delivers:
  one batch reaches the buffer while a \<open>read\<close> blocks.
\<close>

datatype event = Write "byte list" | Read nat

record serial_port =
  calls :: "event list"
  in_buf :: "byte list"
  arrivals :: "byte list list"

definition port_write :: "serial_port \<Rightarrow> byte list \<Rightarrow> serial_port" where
  "port_write p cmd = p\<lparr>calls := calls p @ [Write cmd]\<rparr>"

text \<open>The bytes a blocking \<open>read\<close> can take from: the buffer and the next batch.\<close>

definition available :: "serial_port \<Rightarrow> byte list" where
  "available p = (case arrivals p of [] \<Rightarrow> in_buf p | b # bs \<Rightarrow> in_buf p @ b)"

definition port_read :: "serial_port \<Rightarrow> nat \<Rightarrow> byte list \<times> serial_port" where
  "port_read p n =
     (take n (available p),
      p\<lparr>calls := calls p @ [Read n], in_buf := drop n (available p),
        arrivals := tl (arrivals p)\<rparr>)"

definition port_inWaiting :: "serial_port \<Rightarrow> nat" where
  "port_inWaiting p = length (in_buf p)"

text \<open>The byte strings written so far, oldest first.\<close>

fun written :: "event list \<Rightarrow> byte list list" where
  "written [] = []"
| "written (Write bs # es) = bs # written es"
| "written (Read n # es) = written es"

section \<open>The controller\<close>

text \<open>
  The attributes of a \<open>Controller\<close> object. An attribute that a method assigns is
  \<open>None\<close> until then, and reading it there raises AttributeError. The calibration values
  are assigned once in \<open>__init__\<close>, before the first method that reads them, and never
  again: they are constants. The attributes \<open>name\<close>, \<open>verbose\<close> and \<open>very_verbose\<close>
  only steer what is printed, and printing is left out, as is \<open>close\<close>, which no other
  method follows.
\<close>

record controller =
  port :: serial_port
  model_number :: "string option"
  type :: "int option"
  serial_number :: "int option"
  firmware_v :: "int option"
  hardware_v :: "int option"
  enable :: "bool option"
  ch_id_bytes :: "byte list option"
  position_mm :: "rat option"
  moving :: "bool option"

definition position_min_mm :: rat where "position_min_mm = 0"
definition position_max_mm :: rat where "position_max_mm = 100"
definition range_tol_mm :: rat where "range_tol_mm = 1 / 10"
definition EncCnt_per_mm :: int where "EncCnt_per_mm = 2000"
definition offset_mm :: rat where "offset_mm = 5 / 100"
definition offset_counts :: int where
  "offset_counts = py_round (offset_mm * of_int EncCnt_per_mm)"

text \<open>A method returns a value and the object as it has become, or raises; the object
  as the exception leaves it is part of the result.\<close>

type_synonym 'a result = "(error \<times> controller) + ('a \<times> controller)"

definition state_of :: "'a result \<Rightarrow> controller" where
  "state_of r = (case r of Inl (e, c) \<Rightarrow> c | Inr (x, c) \<Rightarrow> c)"

definition send :: "controller \<Rightarrow> byte list \<Rightarrow> nat option \<Rightarrow> (byte list option) result" where
  "send c cmd response_bytes =
     (let p1 = port_write (port c) cmd;
          (response, p2) =
            (case response_bytes of
               None \<Rightarrow> (None, p1)
             | Some n \<Rightarrow> (case port_read p1 n of (r, p) \<Rightarrow> (Some r, p)));
          c' = c\<lparr>port := p2\<rparr>
      in if port_inWaiting p2 = 0 then Inr (response, c') else Inl (AssertionError, c'))"

text \<open>\<open>_get_info\<close>: MGMSG_HW_REQ_INFO, a reply of 90 bytes.\<close>

definition get_info :: "controller \<Rightarrow> (byte list) result" where
  "get_info c =
     (case send c [0x05, 0x00, 0x00, 0x00, 0x50, 0x01] (Some 90) of
        Inl e \<Rightarrow> Inl e
      | Inr (None, c1) \<Rightarrow> Inl (TypeError, c1)
      | Inr (Some response, c1) \<Rightarrow>
          (case decode_ascii (py_slice response 10 18) of
             None \<Rightarrow> Inl (UnicodeDecodeError, c1)
           | Some m \<Rightarrow>
               Inr (response,
                    c1\<lparr>model_number := Some m,
                       type := Some (from_bytes_little (py_slice response 18 20)),
                       serial_number := Some (from_bytes_little (py_slice response 6 10)),
                       firmware_v := Some (from_bytes_little (py_slice response 20 24)),
                       hardware_v := Some (from_bytes_little (py_slice response 84 86))\<rparr>)))"

text \<open>\<open>_get_enable\<close>: MGMSG_MOD_REQ_CHANENABLESTATE, a reply of 6 bytes whose byte 3
  is the state.\<close>

definition get_enable :: "controller \<Rightarrow> bool result" where
  "get_enable c =
     (case send c [0x11, 0x02, 0x00, 0x00, 0x50, 0x01] (Some 6) of
        Inl e \<Rightarrow> Inl e
      | Inr (None, c1) \<Rightarrow> Inl (TypeError, c1)
      | Inr (Some response, c1) \<Rightarrow>
          if length response \<le> 3 then Inl (IndexError, c1)
          else if response ! 3 \<noteq> 1 \<and> response ! 3 \<noteq> 2 then Inl (AssertionError, c1)
          else
            (let c2 = (if response ! 3 = 1 then c1\<lparr>enable := Some True\<rparr> else c1);
                 c3 = (if response ! 3 = 2 then c2\<lparr>enable := Some False\<rparr> else c2)
             in case enable c3 of
                  None \<Rightarrow> Inl (AttributeError, c3)
                | Some b \<Rightarrow> Inr (b, c3)))"

text \<open>\<open>_set_enable\<close>: MGMSG_MOD_SET_CHANENABLESTATE, no reply, then the state is read
  back and compared. The argument is a \<open>bool\<close>, so the first assertion,
  \<open>enable in (True, False)\<close>, holds.\<close>

definition set_enable :: "controller \<Rightarrow> bool \<Rightarrow> unit result" where
  "set_enable c enable' =
     (let cmd = (if enable' then [0x10, 0x02, 0x00, 0x01, 0x50, 0x01]
                 else [0x10, 0x02, 0x00, 0x02, 0x50, 0x01])
      in case send c cmd None of
           Inl e \<Rightarrow> Inl e
         | Inr (_, c1) \<Rightarrow>
             (case get_enable c1 of
                Inl e \<Rightarrow> Inl e
              | Inr (b, c2) \<Rightarrow>
                  if b = enable' then Inr ((), c2) else Inl (AssertionError, c2)))"

text \<open>\<open>_home\<close>: MGMSG_MOT_MOVE_HOME; the 6 bytes that come back are not looked at.\<close>

definition home :: "controller \<Rightarrow> unit result" where
  "home c =
     (case send c [0x43, 0x04, 0x00, 0x00, 0x50, 0x01] (Some 6) of
        Inl e \<Rightarrow> Inl e
      | Inr (_, c1) \<Rightarrow> Inr ((), c1))"

text \<open>\<open>identify\<close>: MGMSG_MOD_IDENTIFY, no reply.\<close>

definition identify :: "controller \<Rightarrow> (byte list option) result" where
  "identify c = send c [0x23, 0x02, 0x00, 0x00, 0x50, 0x01] None"

text \<open>\<open>get_position_mm\<close>: MGMSG_MOT_REQ_POSCOUNTER, a reply of 12 bytes: the channel
  in bytes 6 and 7, the encoder count in bytes 8 to 11.\<close>

definition get_position_mm :: "controller \<Rightarrow> rat result" where
  "get_position_mm c =
     (case send c [0x11, 0x04, 0x00, 0x00, 0x50, 0x01] (Some 12) of
        Inl e \<Rightarrow> Inl e
      | Inr (None, c1) \<Rightarrow> Inl (TypeError, c1)
      | Inr (Some response, c1) \<Rightarrow>
          (let c2 = c1\<lparr>ch_id_bytes := Some (py_slice response 6 8)\<rparr>;
               position_counts = from_bytes_little (py_slice response 8 12);
               position_mm' = of_int position_counts / of_int EncCnt_per_mm;
               c3 = c2\<lparr>position_mm := Some (position_mm' - offset_mm)\<rparr>
           in Inr (position_mm' - offset_mm, c3)))"

text \<open>\<open>_finish_move\<close>: nothing when no move is pending, else 20 bytes are read and
  dropped.\<close>

definition finish_move :: "controller \<Rightarrow> unit result" where
  "finish_move c =
     (case moving c of
        None \<Rightarrow> Inl (AttributeError, c)
      | Some False \<Rightarrow> Inr ((), c)
      | Some True \<Rightarrow>
          (case port_read (port c) 20 of
             (r, p) \<Rightarrow> Inr ((), c\<lparr>port := p, moving := Some False\<rparr>)))"

text \<open>The first line of \<open>move_mm\<close>: \<open>if self._moving: self._finish_move()\<close>.\<close>

definition resolve_pending :: "controller \<Rightarrow> unit result" where
  "resolve_pending c =
     (case moving c of
        None \<Rightarrow> Inl (AttributeError, c)
      | Some True \<Rightarrow> finish_move c
      | Some False \<Rightarrow> Inr ((), c))"

text \<open>Lines 137 to 146 of \<open>move_mm\<close>: the cached position is assigned and the command
  is built, MGMSG_MOT_MOVE_RELATIVE or MGMSG_MOT_MOVE_ABSOLUTE. The destination byte is
  \<open>0x50 | 0x80\<close>.\<close>

definition build_move :: "controller \<Rightarrow> int \<Rightarrow> rat \<Rightarrow> bool \<Rightarrow> (byte list) result" where
  "build_move c position_counts move_mm' relative =
     (let d = (0x50 :: byte) OR 0x80 in
      if relative then
        (case position_mm c of
           None \<Rightarrow> Inl (AttributeError, c)
         | Some pos \<Rightarrow>
             (let c1 = c\<lparr>position_mm := Some (pos + move_mm')\<rparr> in
              case to_bytes4_signed position_counts of
                None \<Rightarrow> Inl (OverflowError, c1)
              | Some p \<Rightarrow>
                  (case ch_id_bytes c1 of
                     None \<Rightarrow> Inl (AttributeError, c1)
                   | Some ch \<Rightarrow> Inr ([0x48, 0x04, 0x06, 0x00] @ [d] @ [0x01] @ ch @ p, c1))))
      else
        (let c1 = c\<lparr>position_mm := Some move_mm'\<rparr> in
         case to_bytes4_signed (position_counts + offset_counts) of
           None \<Rightarrow> Inl (OverflowError, c1)
         | Some p \<Rightarrow>
             (case ch_id_bytes c1 of
                None \<Rightarrow> Inl (AttributeError, c1)
              | Some ch \<Rightarrow> Inr ([0x53, 0x04, 0x06, 0x00] @ [d] @ [0x01] @ ch @ p, c1))))"

text \<open>\<open>move_mm\<close>, with the keyword arguments \<open>relative\<close> and \<open>block\<close> given.\<close>

definition move_mm :: "controller \<Rightarrow> rat \<Rightarrow> bool \<Rightarrow> bool \<Rightarrow> unit result" where
  "move_mm c mv relative block =
     (case resolve_pending c of
        Inl e \<Rightarrow> Inl e
      | Inr (_, c1) \<Rightarrow>
          (let position_counts = py_round (mv * of_int EncCnt_per_mm);
               move_mm' = of_int position_counts / of_int EncCnt_per_mm
           in case build_move c1 position_counts move_mm' relative of
                Inl e \<Rightarrow> Inl e
              | Inr (cmd, c2) \<Rightarrow>
                  (case position_mm c2 of
                     None \<Rightarrow> Inl (AttributeError, c2)
                   | Some pos \<Rightarrow>
                       if \<not> (position_min_mm - range_tol_mm \<le> pos) then Inl (AssertionError, c2)
                       else if \<not> (pos \<le> position_max_mm + range_tol_mm) then Inl (AssertionError, c2)
                       else
                         (case send c2 cmd None of
                            Inl e \<Rightarrow> Inl e
                          | Inr (_, c3) \<Rightarrow>
                              (let c4 = c3\<lparr>moving := Some True\<rparr> in
                               if block then finish_move c4 else Inr ((), c4))))))"

text \<open>Lines 132 and 133 of \<open>move_mm\<close> as one function: the requested millimetres
  snapped to a whole number of encoder counts.\<close>

definition legalize :: "rat \<Rightarrow> rat" where
  "legalize mv = of_int (py_round (mv * of_int EncCnt_per_mm)) / of_int EncCnt_per_mm"

text \<open>\<open>__init__\<close>. \<open>serial.Serial\<close> gives the open port or raises (here \<open>None\<close>),
  which becomes IOError; no attribute but the port matters before \<open>_get_info\<close>.\<close>

definition Controller_init :: "serial_port option \<Rightarrow> (error \<times> controller option) + controller" where
  "Controller_init serial_Serial =
     (case serial_Serial of
        None \<Rightarrow> Inl (IOError, None)
      | Some p \<Rightarrow>
          (let c0 = \<lparr>port = p, model_number = None, type = None, serial_number = None,
                     firmware_v = None, hardware_v = None, enable = None,
                     ch_id_bytes = None, position_mm = None, moving = None\<rparr>
           in case get_info c0 of
                Inl (e, c) \<Rightarrow> Inl (e, Some c)
              | Inr (_, c1) \<Rightarrow>
                  if model_number c1 \<noteq> Some (''KBD101'' @ [CHR 0x00, CHR 0x00])
                  then Inl (AssertionError, Some c1)
                  else if firmware_v c1 \<noteq> Some 131080 then Inl (AssertionError, Some c1)
                  else
                    (case set_enable c1 True of
                       Inl (e, c) \<Rightarrow> Inl (e, Some c)
                     | Inr (_, c2) \<Rightarrow>
                         (case home c2 of
                            Inl (e, c) \<Rightarrow> Inl (e, Some c)
                          | Inr (_, c3) \<Rightarrow>
                              (case get_position_mm c3 of
                                 Inl (e, c) \<Rightarrow> Inl (e, Some c)
                               | Inr (_, c4) \<Rightarrow>
                                   (case move_mm (c4\<lparr>moving := Some False\<rparr>) 0 False True of
                                      Inl (e, c) \<Rightarrow> Inl (e, Some c)
                                    | Inr (_, c5) \<Rightarrow> Inr c5))))))"

section \<open>Sessions to run the driver on\<close>

text \<open>A controller as a successful construction leaves it: enabled, homed, idle at
  0 mm on channel 1, the buffer empty; \<open>replies\<close> are the batches the device still
  delivers.\<close>

definition idle_session :: "byte list list \<Rightarrow> controller" where
  "idle_session replies =
     \<lparr>port = \<lparr>calls = [], in_buf = [], arrivals = replies\<rparr>,
      model_number = Some (''KBD101'' @ [CHR 0x00, CHR 0x00]),
      type = Some 16, serial_number = Some 28000001,
      firmware_v = Some 131080, hardware_v = Some 2, enable = Some True,
      ch_id_bytes = Some [0x01, 0x00], position_mm = Some 0, moving = Some False\<rparr>"

text \<open>The replies of a KBD101 to the startup sequence: identity (90 bytes), channel
  state (6), homed (6), position counter (12), move completed (20).\<close>

definition info_reply :: "byte list" where
  "info_reply =
     [0x06, 0x00, 0x54, 0x00, 0x81, 0x50] @ [0x01, 0x3F, 0xAB, 0x01]
     @ [0x4B, 0x42, 0x44, 0x31, 0x30, 0x31, 0x00, 0x00] @ [0x10, 0x00]
     @ [0x08, 0x00, 0x02, 0x00] @ replicate 60 0x00 @ [0x02, 0x00] @ replicate 4 0x00"

definition startup_replies :: "byte list list" where
  "startup_replies =
     [info_reply,
      [0x12, 0x02, 0x01, 0x01, 0x01, 0x50],
      [0x44, 0x04, 0x01, 0x00, 0x01, 0x50],
      [0x12, 0x04, 0x06, 0x00, 0x81, 0x50, 0x01, 0x00, 0x00, 0x00, 0x00, 0x00],
      replicate 20 0x00]"

text \<open>A session with a non-blocking move to 20 mm pending; the device still delivers
  two completion messages.\<close>

definition moving_session :: controller where
  "moving_session =
     state_of (move_mm (idle_session [replicate 20 0x00, replicate 20 0x00]) 20 False False)"

text \<open>An idle session whose device answers the next position query from channel 2 at
  count 100 and then completes one move; and an object on which no position query has
  run yet.\<close>

definition query_session :: controller where
  "query_session =
     idle_session [[0x12, 0x04, 0x06, 0x00, 0x81, 0x50, 0x02, 0x00, 0x64, 0x00, 0x00, 0x00],
                   replicate 20 0x00]"

definition no_channel_session :: controller where
  "no_channel_session = (idle_session [])\<lparr>ch_id_bytes := None\<rparr>"

text \<open>Idle sessions whose device answers the next position query with the counter at
  -100, the four bytes an absolute move to -0.1 mm carries, and with a reply that stops
  after the channel.\<close>

definition below_zero_session :: controller where
  "below_zero_session =
     idle_session [[0x12, 0x04, 0x06, 0x00, 0x81, 0x50, 0x01, 0x00, 0x9C, 0xFF, 0xFF, 0xFF]]"

definition short_reply_session :: controller where
  "short_reply_session = idle_session [[0x12, 0x04, 0x06, 0x00, 0x81, 0x50, 0x02, 0x00]]"

text \<open>Idle sessions whose device answers the next channel state request with
  \<open>enabled\<close> (status 1) and with \<open>disabled\<close> (status 2).\<close>

definition enabled_reply_session :: controller where
  "enabled_reply_session = idle_session [[0x12, 0x02, 0x01, 0x01, 0x01, 0x50]]"

definition disabled_reply_session :: controller where
  "disabled_reply_session = idle_session [[0x12, 0x02, 0x01, 0x02, 0x01, 0x50]]"

text \<open>The port as \<open>serial.Serial\<close> opens it in front of a KBD101, and in front of a
  device that reports firmware 131081.\<close>

definition fresh_port :: serial_port where
  "fresh_port = \<lparr>calls = [], in_buf = [], arrivals = startup_replies\<rparr>"

definition other_firmware_port :: serial_port where
  "other_firmware_port = \<lparr>calls = [], in_buf = [], arrivals = [info_reply[20 := 0x09]]\<rparr>"

text \<open>An idle session whose device answers the next position query with the 6-byte
  header alone and then completes one move.\<close>

definition header_only_session :: controller where
  "header_only_session =
     idle_session [[0x12, 0x04, 0x06, 0x00, 0x81, 0x50], replicate 20 0x00]"

section \<open>Facts about the port and the exchange\<close>

lemma calls_port_write: "calls (port_write p cmd) = calls p @ [Write cmd]"
  and in_buf_port_write: "in_buf (port_write p cmd) = in_buf p"
  and arrivals_port_write: "arrivals (port_write p cmd) = arrivals p"
  and available_port_write: "available (port_write p cmd) = available p"
  by (simp_all add: port_write_def available_def split: list.splits)

lemma fst_port_read: "fst (port_read p n) = take n (available p)"
  and calls_port_read: "calls (snd (port_read p n)) = calls p @ [Read n]"
  and in_buf_port_read: "in_buf (snd (port_read p n)) = drop n (available p)"
  and arrivals_port_read: "arrivals (snd (port_read p n)) = tl (arrivals p)"
  by (simp_all add: port_read_def)

lemma written_append: "written (xs @ ys) = written xs @ written ys"
  by (induction xs rule: written.induct) simp_all

lemma state_of_simps: "state_of (Inl (e, c)) = c" "state_of (Inr (x, c)) = c"
  by (simp_all add: state_of_def)

text \<open>\<open>_send\<close> without a reply: the command is written, and the call raises exactly
  when the buffer holds bytes.\<close>

lemma send_None:
  "send c cmd None =
     (if in_buf (port c) = [] then Inr (None, c\<lparr>port := port_write (port c) cmd\<rparr>)
      else Inl (AssertionError, c\<lparr>port := port_write (port c) cmd\<rparr>))"
  by (simp add: send_def port_inWaiting_def in_buf_port_write)

text \<open>\<open>_send\<close> with a reply of \<open>n\<close> bytes: it raises exactly when more than \<open>n\<close>
  bytes were there to read.\<close>

lemma send_Some:
  "send c cmd (Some n) =
     (if length (available (port c)) \<le> n
      then Inr (Some (take n (available (port c))),
                c\<lparr>port := snd (port_read (port_write (port c) cmd) n)\<rparr>)
      else Inl (AssertionError, c\<lparr>port := snd (port_read (port_write (port c) cmd) n)\<rparr>))"
  by (simp add: send_def port_inWaiting_def Let_def split_beta fst_port_read
        in_buf_port_read available_port_write)

lemma send_Inr_empty: "send c cmd n = Inr (r, c') \<Longrightarrow> port_inWaiting (port c') = 0"
  by (auto simp: send_def Let_def split_beta split: if_splits)







section \<open>Finishing a move\<close>

lemma finish_move_idle: "moving c = Some False \<Longrightarrow> finish_move c = Inr ((), c)"
  by (simp add: finish_move_def)

lemma finish_move_pending:
  "moving c = Some True \<Longrightarrow>
   finish_move c = Inr ((), c\<lparr>port := snd (port_read (port c) 20), moving := Some False\<rparr>)"
  by (simp add: finish_move_def split_beta)



section \<open>Rounding and legal positions\<close>

lemma dest_byte: "(0x50 :: byte) OR 0x80 = 0xD0"
  by simp

lemma py_round_of_int: "py_round (of_int k) = k"
  by (simp add: py_round_def)

lemma py_round_numeral: "py_round (numeral k) = numeral k"
  and py_round_neg_numeral: "py_round (- numeral k) = - numeral k"
  and py_round_0: "py_round 0 = 0"
  using py_round_of_int [of "numeral k"] py_round_of_int [of "- numeral k"] py_round_of_int [of 0]
  by simp_all



lemma offset_counts_eq: "offset_counts = 100"
  by (simp add: offset_counts_def offset_mm_def EncCnt_per_mm_def py_round_numeral)

section \<open>Moves\<close>

lemma resolve_pending_eq:
  "moving c = Some m \<Longrightarrow>
   resolve_pending c =
     Inr ((), if m then c\<lparr>port := snd (port_read (port c) 20), moving := Some False\<rparr> else c)"
  by (simp add: resolve_pending_def finish_move_pending)

lemma resolve_pending_None: "moving c = None \<Longrightarrow> resolve_pending c = Inl (AttributeError, c)"
  by (simp add: resolve_pending_def)

lemma move_mm_eq:
  assumes "moving c = Some m" and "ch_id_bytes c = Some ch" and "rel \<longrightarrow> position_mm c = Some pos"
  shows "move_mm c mv rel blk =
    (let c1 = state_of (resolve_pending c);
         n = py_round (mv * of_int EncCnt_per_mm);
         newpos = (if rel then pos + legalize mv else legalize mv);
         c2 = c1\<lparr>position_mm := Some newpos\<rparr>
     in case to_bytes4_signed (if rel then n else n + offset_counts) of
          None \<Rightarrow> Inl (OverflowError, c2)
        | Some p \<Rightarrow>
            (let cmd = (if rel then [0x48, 0x04, 0x06, 0x00, 0xD0, 0x01]
                        else [0x53, 0x04, 0x06, 0x00, 0xD0, 0x01]) @ ch @ p
             in if newpos < position_min_mm - range_tol_mm \<or> position_max_mm + range_tol_mm < newpos
                then Inl (AssertionError, c2)
                else if in_buf (port c1) \<noteq> []
                then Inl (AssertionError, c2\<lparr>port := port_write (port c1) cmd\<rparr>)
                else if blk
                then Inr ((), c2\<lparr>port := snd (port_read (port_write (port c1) cmd) 20),
                                moving := Some False\<rparr>)
                else Inr ((), c2\<lparr>port := port_write (port c1) cmd, moving := Some True\<rparr>)))"
  using assms
  by (cases rel; cases m)
     (auto simp: move_mm_def build_move_def resolve_pending_eq state_of_simps legalize_def
        Let_def send_None finish_move_pending not_le split: option.splits)

lemma move_mm_no_moving: "moving c = None \<Longrightarrow> move_mm c mv rel blk = Inl (AttributeError, c)"
  by (simp add: move_mm_def resolve_pending_None)

lemma move_mm_no_position:
  "moving c = Some m \<Longrightarrow> position_mm c = None \<Longrightarrow>
   move_mm c mv True blk = Inl (AttributeError, state_of (resolve_pending c))"
  by (cases m) (simp_all add: move_mm_def resolve_pending_eq build_move_def state_of_simps)

lemma move_mm_no_channel:
  "moving c = Some m \<Longrightarrow> ch_id_bytes c = None \<Longrightarrow> (rel \<longrightarrow> position_mm c = Some pos) \<Longrightarrow>
   \<exists>e. move_mm c mv rel blk
     = Inl (e, (state_of (resolve_pending c))
                 \<lparr>position_mm := Some (if rel then pos + legalize mv else legalize mv)\<rparr>)"
  by (cases m; cases rel)
     (auto simp: move_mm_def resolve_pending_eq build_move_def state_of_simps legalize_def Let_def
        split: option.splits)

lemma move_mm_InrD:
  assumes "move_mm c mv rel blk = Inr (u, c')"
  shows "\<exists>m ch pos p. moving c = Some m \<and> ch_id_bytes c = Some ch
      \<and> (rel \<longrightarrow> position_mm c = Some pos)
      \<and> to_bytes4_signed (if rel then py_round (mv * of_int EncCnt_per_mm)
                           else py_round (mv * of_int EncCnt_per_mm) + offset_counts) = Some p
      \<and> position_min_mm - range_tol_mm \<le> (if rel then pos + legalize mv else legalize mv)
      \<and> (if rel then pos + legalize mv else legalize mv) \<le> position_max_mm + range_tol_mm
      \<and> in_buf (port (state_of (resolve_pending c))) = []
      \<and> c' = (state_of (resolve_pending c))
              \<lparr>position_mm := Some (if rel then pos + legalize mv else legalize mv),
               port := (if blk
                  then snd (port_read (port_write (port (state_of (resolve_pending c)))
                     ((if rel then [0x48, 0x04, 0x06, 0x00, 0xD0, 0x01]
                       else [0x53, 0x04, 0x06, 0x00, 0xD0, 0x01]) @ ch @ p)) 20)
                  else port_write (port (state_of (resolve_pending c)))
                     ((if rel then [0x48, 0x04, 0x06, 0x00, 0xD0, 0x01]
                       else [0x53, 0x04, 0x06, 0x00, 0xD0, 0x01]) @ ch @ p)),
               moving := Some (\<not> blk)\<rparr>"
proof -
  from assms obtain m where m: "moving c = Some m"
    by (cases "moving c") (simp_all add: move_mm_no_moving)
  have "\<exists>pos. rel \<longrightarrow> position_mm c = Some pos"
    using assms m by (cases rel; cases "position_mm c") (simp_all add: move_mm_no_position)
  then obtain pos where pos: "rel \<longrightarrow> position_mm c = Some pos" ..
  from assms m pos obtain ch where ch: "ch_id_bytes c = Some ch"
    using move_mm_no_channel [OF m _ pos, of mv blk] by (cases "ch_id_bytes c") auto
  show ?thesis
    using assms unfolding move_mm_eq [OF m ch pos]
    by (auto simp: Let_def m ch pos not_less split: option.splits if_splits)
qed

lemma written_resolve_pending:
  "moving c = Some m \<Longrightarrow>
   written (calls (port (state_of (resolve_pending c)))) = written (calls (port c))"
  by (cases m) (simp_all add: resolve_pending_eq state_of_simps calls_port_read written_append)

lemma calls_resolve_pending:
  "moving c = Some m \<Longrightarrow>
   calls (port (state_of (resolve_pending c))) = calls (port c) @ (if m then [Read 20] else [])"
  by (cases m) (simp_all add: resolve_pending_eq state_of_simps calls_port_read)

lemma ch_id_resolve_pending:
  "ch_id_bytes (state_of (resolve_pending c)) = ch_id_bytes c"
  by (auto simp: resolve_pending_def finish_move_def state_of_def split_beta
        split: option.splits bool.splits)

lemma to_bytes4_signed_length: "to_bytes4_signed n = Some p \<Longrightarrow> length p = 4"
  by (auto simp: to_bytes4_signed_def split: if_splits)

lemma move_mm_Inr_calls:
  assumes "move_mm c mv rel blk = Inr (u, c')"
  shows "\<exists>m ch p. moving c = Some m \<and> ch_id_bytes c = Some ch
      \<and> to_bytes4_signed (if rel then py_round (mv * of_int EncCnt_per_mm)
                           else py_round (mv * of_int EncCnt_per_mm) + offset_counts) = Some p
      \<and> calls (port c') = calls (port c) @ (if m then [Read 20] else [])
           @ [Write ((if rel then [0x48, 0x04, 0x06, 0x00, 0xD0, 0x01]
                      else [0x53, 0x04, 0x06, 0x00, 0xD0, 0x01]) @ ch @ p)]
           @ (if blk then [Read 20] else [])
      \<and> moving c' = Some (\<not> blk) \<and> ch_id_bytes c' = Some ch"
proof -
  from move_mm_InrD [OF assms] obtain m ch pos p where
    m: "moving c = Some m" and ch: "ch_id_bytes c = Some ch"
    and p: "to_bytes4_signed (if rel then py_round (mv * of_int EncCnt_per_mm)
                           else py_round (mv * of_int EncCnt_per_mm) + offset_counts) = Some p"
    and c': "c' = (state_of (resolve_pending c))
              \<lparr>position_mm := Some (if rel then pos + legalize mv else legalize mv),
               port := (if blk
                  then snd (port_read (port_write (port (state_of (resolve_pending c)))
                     ((if rel then [0x48, 0x04, 0x06, 0x00, 0xD0, 0x01]
                       else [0x53, 0x04, 0x06, 0x00, 0xD0, 0x01]) @ ch @ p)) 20)
                  else port_write (port (state_of (resolve_pending c)))
                     ((if rel then [0x48, 0x04, 0x06, 0x00, 0xD0, 0x01]
                       else [0x53, 0x04, 0x06, 0x00, 0xD0, 0x01]) @ ch @ p)),
               moving := Some (\<not> blk)\<rparr>"
    by blast
  have "calls (port c') = calls (port c) @ (if m then [Read 20] else [])
           @ [Write ((if rel then [0x48, 0x04, 0x06, 0x00, 0xD0, 0x01]
                      else [0x53, 0x04, 0x06, 0x00, 0xD0, 0x01]) @ ch @ p)]
           @ (if blk then [Read 20] else [])"
    by (simp add: c' calls_port_read calls_port_write calls_resolve_pending [OF m])
  moreover have "moving c' = Some (\<not> blk)" "ch_id_bytes c' = Some ch"
    by (simp_all add: c' ch_id_resolve_pending ch)
  ultimately show ?thesis using m ch p by blast
qed

text \<open>
  C2. A non-blocking move that returns leaves the flag set (\<open>Moving\<close>), a blocking one
  leaves it cleared. With a move pending, \<open>_finish_move\<close> returns with the flag cleared
  after one \<open>read(20)\<close>; with none pending it returns the object as it is, the port
  included, so nothing is read. A move issued while one is pending is the same move
  issued after \<open>_finish_move\<close>: in the port's calls the \<open>read(20)\<close> that resolves the
  pending move comes before the write of the new command.
\<close>

theorem single_outstanding_move:
  "(move_mm c mv rel False = Inr (u, c') \<longrightarrow> moving c' = Some True)
   \<and> (move_mm c mv rel True = Inr (u, c') \<longrightarrow> moving c' = Some False)
   \<and> (moving c = Some True \<longrightarrow>
        finish_move c = Inr ((), state_of (finish_move c))
        \<and> moving (state_of (finish_move c)) = Some False
        \<and> calls (port (state_of (finish_move c))) = calls (port c) @ [Read 20])
   \<and> (moving c = Some False \<longrightarrow> finish_move c = Inr ((), c))
   \<and> (moving c = Some True \<longrightarrow>
        move_mm c mv rel blk = move_mm (state_of (finish_move c)) mv rel blk)
   \<and> (moving c = Some True \<and> move_mm c mv rel blk = Inr (u, c') \<longrightarrow>
        (\<exists>cmd. calls (port c')
           = calls (port c) @ [Read 20, Write cmd] @ (if blk then [Read 20] else [])))"
proof (intro conjI impI)
  assume "move_mm c mv rel False = Inr (u, c')"
  from move_mm_Inr_calls [OF this] show "moving c' = Some True" by auto
next
  assume "move_mm c mv rel True = Inr (u, c')"
  from move_mm_Inr_calls [OF this] show "moving c' = Some False" by auto
next
  assume "moving c = Some True"
  then show "finish_move c = Inr ((), state_of (finish_move c))"
    and "moving (state_of (finish_move c)) = Some False"
    and "calls (port (state_of (finish_move c))) = calls (port c) @ [Read 20]"
    by (simp_all add: finish_move_pending state_of_simps calls_port_read)
next
  assume "moving c = Some False"
  then show "finish_move c = Inr ((), c)" by (rule finish_move_idle)
next
  assume "moving c = Some True"
  then show "move_mm c mv rel blk = move_mm (state_of (finish_move c)) mv rel blk"
    by (simp add: move_mm_def resolve_pending_def finish_move_pending state_of_simps)
next
  assume "moving c = Some True \<and> move_mm c mv rel blk = Inr (u, c')"
  then have m: "moving c = Some True" and r: "move_mm c mv rel blk = Inr (u, c')" by simp_all
  from move_mm_Inr_calls [OF r] m
  show "\<exists>cmd. calls (port c') = calls (port c) @ [Read 20, Write cmd] @ (if blk then [Read 20] else [])"
    by auto
qed

text \<open>A move to 0 mm issued while the move to 20 mm is pending: the completion message
  is read between the two commands; finishing twice is finishing once.\<close>

theorem single_outstanding_move_witness:
  "move_mm (idle_session [replicate 20 0x00, replicate 20 0x00]) 20 False False
     = Inr ((), moving_session)
   \<and> moving moving_session = Some True
   \<and> calls (port (state_of (move_mm moving_session 0 False False)))
       = [Write [0x53, 0x04, 0x06, 0x00, 0xD0, 0x01, 0x01, 0x00, 0xA4, 0x9C, 0x00, 0x00],
          Read 20,
          Write [0x53, 0x04, 0x06, 0x00, 0xD0, 0x01, 0x01, 0x00, 0x64, 0x00, 0x00, 0x00]]
   \<and> moving (state_of (finish_move moving_session)) = Some False
   \<and> finish_move (state_of (finish_move moving_session))
       = Inr ((), state_of (finish_move moving_session))"
proof -
  let ?c0 = "idle_session [replicate 20 0x00, replicate 20 0x00]"
  let ?c2 = "state_of (move_mm moving_session 0 False False)"
  let ?c3 = "state_of (finish_move moving_session)"
  have first: "move_mm ?c0 20 False False = Inr ((), moving_session)"
    by code_simp
  have pending: "moving moving_session = Some True"
    using single_outstanding_move [where c = ?c0 and mv = 20 and rel = False and u = "()"
        and c' = moving_session] first
    by blast
  have second: "move_mm moving_session 0 False False = Inr ((), ?c2)"
    by code_simp
  have "\<exists>cmd. calls (port ?c2)
      = calls (port moving_session) @ [Read 20, Write cmd] @ (if False then [Read 20] else [])"
    using single_outstanding_move [where c = moving_session and mv = 0 and rel = False
        and blk = False and u = "()" and c' = ?c2] pending second
    by blast
  then have "\<exists>cmd. calls (port ?c2) = calls (port moving_session) @ [Read 20, Write cmd]"
    by simp
  moreover have "calls (port moving_session)
      = [Write [0x53, 0x04, 0x06, 0x00, 0xD0, 0x01, 0x01, 0x00, 0xA4, 0x9C, 0x00, 0x00]]"
    by code_simp
  moreover have "last (calls (port ?c2))
      = Write [0x53, 0x04, 0x06, 0x00, 0xD0, 0x01, 0x01, 0x00, 0x64, 0x00, 0x00, 0x00]"
    by code_simp
  ultimately have log: "calls (port ?c2)
       = [Write [0x53, 0x04, 0x06, 0x00, 0xD0, 0x01, 0x01, 0x00, 0xA4, 0x9C, 0x00, 0x00],
          Read 20,
          Write [0x53, 0x04, 0x06, 0x00, 0xD0, 0x01, 0x01, 0x00, 0x64, 0x00, 0x00, 0x00]]"
    by auto
  have idle: "moving ?c3 = Some False"
    using single_outstanding_move [where c = moving_session] pending by blast
  have again: "finish_move ?c3 = Inr ((), ?c3)"
    using single_outstanding_move [where c = ?c3] idle by blast
  show ?thesis
    using first pending log idle again by (intro conjI)
qed

section \<open>The position field of a move command\<close>

lemma uint_byte_of_int: "uint (word_of_int k :: byte) = k mod 256"
  by (simp add: uint_word_of_int_eq take_bit_eq_mod)

lemma le_bytes_sum:
  "(n::int) mod 256 + 256 * (n div 256 mod 256 + 256 * (n div 65536 mod 256
      + 256 * (n div 16777216 mod 256))) = n mod 4294967296"
proof -
  have a: "n mod 65536 = 256 * (n div 256 mod 256) + n mod 256"
    using zmod_zmult2_eq [of 256 n 256] by simp
  have b: "n mod 16777216 = 65536 * (n div 65536 mod 256) + n mod 65536"
    using zmod_zmult2_eq [of 256 n 65536] by simp
  have c: "n mod 4294967296 = 16777216 * (n div 16777216 mod 256) + n mod 16777216"
    using zmod_zmult2_eq [of 256 n 16777216] by simp
  show ?thesis unfolding c b a by (simp add: algebra_simps)
qed

lemma to_bytes4_signed_Some:
  "to_bytes4_signed n = Some p \<Longrightarrow>
   - 2147483648 \<le> n \<and> n < 2147483648
   \<and> p = [word_of_int n, word_of_int (n div 256),
          word_of_int (n div 65536), word_of_int (n div 16777216)]"
  by (simp add: to_bytes4_signed_def split: if_splits)

lemma from_bytes_little4:
  "from_bytes_little [a, b, c, d] = uint a + 256 * (uint b + 256 * (uint c + 256 * uint d))"
  by simp

lemma from_bytes_little_to_bytes4:
  assumes "to_bytes4_signed n = Some p"
  shows "from_bytes_little p = n mod 4294967296"
proof -
  from to_bytes4_signed_Some [OF assms]
  have p: "p = [word_of_int n, word_of_int (n div 256),
          word_of_int (n div 65536), word_of_int (n div 16777216)]"
    by (rule conjunct2 [OF conjunct2])
  show ?thesis
    unfolding p from_bytes_little4 uint_byte_of_int by (rule le_bytes_sum)
qed

text \<open>The four bytes of \<open>to_bytes\<close> read back as a signed little-endian integer give
  the count that was encoded.\<close>

lemma to_bytes4_signed_roundtrip:
  assumes "to_bytes4_signed n = Some p"
  shows "from_bytes_little_signed p = n"
proof -
  from to_bytes4_signed_Some [OF assms] have r: "- 2147483648 \<le> n" "n < 2147483648"
    and l: "length p = 4" by simp_all
  have u: "from_bytes_little p = n mod 4294967296"
    by (rule from_bytes_little_to_bytes4 [OF assms])
  have ne: "p \<noteq> []" using l by auto
  have pw: "(2::int) ^ (8 * length p - 1) = 2147483648" "(2::int) ^ (8 * length p) = 4294967296"
    by (simp_all add: l)
  show ?thesis
  proof (cases "0 \<le> n")
    case True
    with r have "n mod 4294967296 = n" by simp
    with r True show ?thesis
      unfolding from_bytes_little_signed_def Let_def pw u by simp
  next
    case False
    have "(n + 4294967296) mod 4294967296 = n + 4294967296"
      using r False by (intro mod_pos_pos_trivial) simp_all
    then have "n mod 4294967296 = n + 4294967296" by simp
    with r False ne show ?thesis
      unfolding from_bytes_little_signed_def Let_def pw u by simp
  qed
qed

lemma to_bytes4_signed_0: "to_bytes4_signed 0 = Some [0x00, 0x00, 0x00, 0x00]"
  and to_bytes4_signed_100: "to_bytes4_signed 100 = Some [0x64, 0x00, 0x00, 0x00]"
  by (simp_all add: to_bytes4_signed_def)

lemma move_mm_Inr_written:
  assumes "move_mm c mv rel blk = Inr (u, c')"
  shows "\<exists>ch p. ch_id_bytes c = Some ch \<and> ch_id_bytes c' = Some ch
      \<and> to_bytes4_signed (if rel then py_round (mv * of_int EncCnt_per_mm)
                           else py_round (mv * of_int EncCnt_per_mm) + offset_counts) = Some p
      \<and> written (calls (port c')) = written (calls (port c))
           @ [(if rel then [0x48, 0x04, 0x06, 0x00, 0xD0, 0x01]
               else [0x53, 0x04, 0x06, 0x00, 0xD0, 0x01]) @ ch @ p]"
proof -
  from move_mm_Inr_calls [OF assms] obtain m ch p where
    ch: "ch_id_bytes c = Some ch" "ch_id_bytes c' = Some ch"
    and p: "to_bytes4_signed (if rel then py_round (mv * of_int EncCnt_per_mm)
                           else py_round (mv * of_int EncCnt_per_mm) + offset_counts) = Some p"
    and calls: "calls (port c') = calls (port c) @ (if m then [Read 20] else [])
           @ [Write ((if rel then [0x48, 0x04, 0x06, 0x00, 0xD0, 0x01]
                      else [0x53, 0x04, 0x06, 0x00, 0xD0, 0x01]) @ ch @ p)]
           @ (if blk then [Read 20] else [])"
    by blast
  have "written (calls (port c')) = written (calls (port c))
           @ [(if rel then [0x48, 0x04, 0x06, 0x00, 0xD0, 0x01]
               else [0x53, 0x04, 0x06, 0x00, 0xD0, 0x01]) @ ch @ p]"
    unfolding calls by (simp add: written_append)
  with ch p show ?thesis by blast
qed

text \<open>
  C3. A relative move that returns has written the header of MGMSG_MOT_MOVE_RELATIVE,
  the channel and the four bytes of the rounded count itself; an absolute move that
  returns has written the header of MGMSG_MOT_MOVE_ABSOLUTE, the channel and the four
  bytes of the rounded count plus \<open>offset_counts\<close>. The four bytes read back as a signed
  integer give that number. So a relative move of 0 mm carries the count 0, an absolute
  move to 0 mm carries \<open>offset_counts\<close>, which is 100.
\<close>

theorem offset_only_in_absolute_moves:
  "(move_mm c mv True blk = Inr (u, c') \<longrightarrow>
      (\<exists>ch p. ch_id_bytes c = Some ch
         \<and> to_bytes4_signed (py_round (mv * of_int EncCnt_per_mm)) = Some p
         \<and> from_bytes_little_signed p = py_round (mv * of_int EncCnt_per_mm)
         \<and> written (calls (port c')) = written (calls (port c))
              @ [[0x48, 0x04, 0x06, 0x00, 0xD0, 0x01] @ ch @ p]))
   \<and> (move_mm c mv False blk = Inr (u, c') \<longrightarrow>
      (\<exists>ch p. ch_id_bytes c = Some ch
         \<and> to_bytes4_signed (py_round (mv * of_int EncCnt_per_mm) + offset_counts) = Some p
         \<and> from_bytes_little_signed p = py_round (mv * of_int EncCnt_per_mm) + offset_counts
         \<and> written (calls (port c')) = written (calls (port c))
              @ [[0x53, 0x04, 0x06, 0x00, 0xD0, 0x01] @ ch @ p]))
   \<and> (move_mm c 0 True blk = Inr (u, c') \<longrightarrow>
      (\<exists>ch. ch_id_bytes c = Some ch
         \<and> written (calls (port c')) = written (calls (port c))
              @ [[0x48, 0x04, 0x06, 0x00, 0xD0, 0x01] @ ch @ [0x00, 0x00, 0x00, 0x00]]))
   \<and> (move_mm c 0 False blk = Inr (u, c') \<longrightarrow>
      (\<exists>ch. ch_id_bytes c = Some ch
         \<and> to_bytes4_signed offset_counts = Some [0x64, 0x00, 0x00, 0x00]
         \<and> written (calls (port c')) = written (calls (port c))
              @ [[0x53, 0x04, 0x06, 0x00, 0xD0, 0x01] @ ch @ [0x64, 0x00, 0x00, 0x00]]))
   \<and> offset_counts = 100"
proof (intro conjI impI)
  assume "move_mm c mv True blk = Inr (u, c')"
  from move_mm_Inr_written [OF this] obtain ch p where
    "ch_id_bytes c = Some ch"
    "to_bytes4_signed (py_round (mv * of_int EncCnt_per_mm)) = Some p"
    "written (calls (port c')) = written (calls (port c))
       @ [[0x48, 0x04, 0x06, 0x00, 0xD0, 0x01] @ ch @ p]"
    by auto
  then show "\<exists>ch p. ch_id_bytes c = Some ch
         \<and> to_bytes4_signed (py_round (mv * of_int EncCnt_per_mm)) = Some p
         \<and> from_bytes_little_signed p = py_round (mv * of_int EncCnt_per_mm)
         \<and> written (calls (port c')) = written (calls (port c))
              @ [[0x48, 0x04, 0x06, 0x00, 0xD0, 0x01] @ ch @ p]"
    using to_bytes4_signed_roundtrip by blast
next
  assume "move_mm c mv False blk = Inr (u, c')"
  from move_mm_Inr_written [OF this] obtain ch p where
    "ch_id_bytes c = Some ch"
    "to_bytes4_signed (py_round (mv * of_int EncCnt_per_mm) + offset_counts) = Some p"
    "written (calls (port c')) = written (calls (port c))
       @ [[0x53, 0x04, 0x06, 0x00, 0xD0, 0x01] @ ch @ p]"
    by auto
  then show "\<exists>ch p. ch_id_bytes c = Some ch
         \<and> to_bytes4_signed (py_round (mv * of_int EncCnt_per_mm) + offset_counts) = Some p
         \<and> from_bytes_little_signed p = py_round (mv * of_int EncCnt_per_mm) + offset_counts
         \<and> written (calls (port c')) = written (calls (port c))
              @ [[0x53, 0x04, 0x06, 0x00, 0xD0, 0x01] @ ch @ p]"
    using to_bytes4_signed_roundtrip by blast
next
  assume "move_mm c 0 True blk = Inr (u, c')"
  from move_mm_Inr_written [OF this]
  show "\<exists>ch. ch_id_bytes c = Some ch
         \<and> written (calls (port c')) = written (calls (port c))
              @ [[0x48, 0x04, 0x06, 0x00, 0xD0, 0x01] @ ch @ [0x00, 0x00, 0x00, 0x00]]"
    by (auto simp: py_round_0 to_bytes4_signed_0)
next
  assume "move_mm c 0 False blk = Inr (u, c')"
  from move_mm_Inr_written [OF this]
  show "\<exists>ch. ch_id_bytes c = Some ch
         \<and> to_bytes4_signed offset_counts = Some [0x64, 0x00, 0x00, 0x00]
         \<and> written (calls (port c')) = written (calls (port c))
              @ [[0x53, 0x04, 0x06, 0x00, 0xD0, 0x01] @ ch @ [0x64, 0x00, 0x00, 0x00]]"
    by (auto simp: py_round_0 offset_counts_eq to_bytes4_signed_100)
next
  show "offset_counts = 100" by (rule offset_counts_eq)
qed

text \<open>From the idle session at 0 mm on channel 1: the relative move of 0 mm writes the
  count 0, the absolute move to 0 mm writes the count 100.\<close>

theorem offset_only_in_absolute_moves_witness:
  "move_mm (idle_session [replicate 20 0x00]) 0 True True
     = Inr ((), state_of (move_mm (idle_session [replicate 20 0x00]) 0 True True))
   \<and> written (calls (port (state_of (move_mm (idle_session [replicate 20 0x00]) 0 True True))))
       = [[0x48, 0x04, 0x06, 0x00, 0xD0, 0x01, 0x01, 0x00, 0x00, 0x00, 0x00, 0x00]]
   \<and> move_mm (idle_session [replicate 20 0x00]) 0 False True
     = Inr ((), state_of (move_mm (idle_session [replicate 20 0x00]) 0 False True))
   \<and> written (calls (port (state_of (move_mm (idle_session [replicate 20 0x00]) 0 False True))))
       = [[0x53, 0x04, 0x06, 0x00, 0xD0, 0x01, 0x01, 0x00, 0x64, 0x00, 0x00, 0x00]]"
proof -
  let ?c = "idle_session [replicate 20 0x00]"
  let ?r = "state_of (move_mm ?c 0 True True)"
  let ?a = "state_of (move_mm ?c 0 False True)"
  have ch: "ch_id_bytes ?c = Some [0x01, 0x00]" and w: "written (calls (port ?c)) = []"
    by (simp_all add: idle_session_def)
  have rel: "move_mm ?c 0 True True = Inr ((), ?r)"
    by code_simp
  have abs: "move_mm ?c 0 False True = Inr ((), ?a)"
    by code_simp
  have "\<exists>ch. ch_id_bytes ?c = Some ch
      \<and> written (calls (port ?r)) = written (calls (port ?c))
           @ [[0x48, 0x04, 0x06, 0x00, 0xD0, 0x01] @ ch @ [0x00, 0x00, 0x00, 0x00]]"
    using offset_only_in_absolute_moves [where c = ?c and blk = True and u = "()" and c' = ?r]
      rel by blast
  then have wr: "written (calls (port ?r))
      = [[0x48, 0x04, 0x06, 0x00, 0xD0, 0x01, 0x01, 0x00, 0x00, 0x00, 0x00, 0x00]]"
    using ch w by auto
  have "\<exists>ch. ch_id_bytes ?c = Some ch
      \<and> to_bytes4_signed offset_counts = Some [0x64, 0x00, 0x00, 0x00]
      \<and> written (calls (port ?a)) = written (calls (port ?c))
           @ [[0x53, 0x04, 0x06, 0x00, 0xD0, 0x01] @ ch @ [0x64, 0x00, 0x00, 0x00]]"
    using offset_only_in_absolute_moves [where c = ?c and blk = True and u = "()" and c' = ?a]
      abs by blast
  then have wa: "written (calls (port ?a))
      = [[0x53, 0x04, 0x06, 0x00, 0xD0, 0x01, 0x01, 0x00, 0x64, 0x00, 0x00, 0x00]]"
    using ch w by auto
  show ?thesis
    using rel wr abs wa by (intro conjI)
qed

section \<open>Legal positions\<close>



lemma move_mm_Inr_position:
  assumes "move_mm c mv rel blk = Inr (u, c')"
  shows "\<exists>pos. (rel \<longrightarrow> position_mm c = Some pos)
      \<and> position_mm c' = Some (if rel then pos + legalize mv else legalize mv)"
proof -
  from move_mm_InrD [OF assms] obtain m ch pos p where
    "moving c = Some m"
    and pos: "rel \<longrightarrow> position_mm c = Some pos"
    and c': "c' = (state_of (resolve_pending c))
              \<lparr>position_mm := Some (if rel then pos + legalize mv else legalize mv),
               port := (if blk
                  then snd (port_read (port_write (port (state_of (resolve_pending c)))
                     ((if rel then [0x48, 0x04, 0x06, 0x00, 0xD0, 0x01]
                       else [0x53, 0x04, 0x06, 0x00, 0xD0, 0x01]) @ ch @ p)) 20)
                  else port_write (port (state_of (resolve_pending c)))
                     ((if rel then [0x48, 0x04, 0x06, 0x00, 0xD0, 0x01]
                       else [0x53, 0x04, 0x06, 0x00, 0xD0, 0x01]) @ ch @ p)),
               moving := Some (\<not> blk)\<rparr>"
    by blast
  have "position_mm c' = Some (if rel then pos + legalize mv else legalize mv)"
    unfolding c' by simp
  with pos show ?thesis by blast
qed



section \<open>The channel of a move command\<close>

lemma py_slice_take: "j \<le> n \<Longrightarrow> py_slice (take n xs) i j = py_slice xs i j"
  by (simp add: py_slice_def drop_take take_take min_def)

lemma get_position_mm_eq:
  "get_position_mm c =
     (if length (available (port c)) \<le> 12
      then Inr (of_int (from_bytes_little (py_slice (available (port c)) 8 12)) / of_int EncCnt_per_mm
                  - offset_mm,
                c\<lparr>port := snd (port_read (port_write (port c) [0x11, 0x04, 0x00, 0x00, 0x50, 0x01]) 12),
                  ch_id_bytes := Some (py_slice (available (port c)) 6 8),
                  position_mm := Some (of_int (from_bytes_little (py_slice (available (port c)) 8 12))
                      / of_int EncCnt_per_mm - offset_mm)\<rparr>)
      else Inl (AssertionError,
                c\<lparr>port := snd (port_read (port_write (port c) [0x11, 0x04, 0x00, 0x00, 0x50, 0x01]) 12)\<rparr>))"
  by (simp add: get_position_mm_def send_Some Let_def py_slice_take)

lemma ch_id_finish_move: "ch_id_bytes (state_of (finish_move c)) = ch_id_bytes c"
  by (auto simp: finish_move_def state_of_def split_beta split: option.splits bool.splits)

lemma ch_id_send: "ch_id_bytes (state_of (send c cmd n)) = ch_id_bytes c"
  by (cases n) (simp_all add: send_None send_Some state_of_simps)

lemma send_cases:
  obtains (raised) e c1 where "send c cmd n = Inl (e, c1)" "ch_id_bytes c1 = ch_id_bytes c"
  | (returned) r c1 where "send c cmd n = Inr (r, c1)" "ch_id_bytes c1 = ch_id_bytes c"
  using ch_id_send [of c cmd n]
  by (cases "send c cmd n") (auto simp: state_of_simps)

lemma ch_id_get_info: "ch_id_bytes (state_of (get_info c)) = ch_id_bytes c"
  by (rule send_cases [of c "[0x05, 0x00, 0x00, 0x00, 0x50, 0x01]" "Some 90"])
     (auto simp: get_info_def state_of_simps split: option.splits)

lemma ch_id_get_enable: "ch_id_bytes (state_of (get_enable c)) = ch_id_bytes c"
  by (rule send_cases [of c "[0x11, 0x02, 0x00, 0x00, 0x50, 0x01]" "Some 6"])
     (auto simp: get_enable_def state_of_simps Let_def split: option.splits)

lemma ch_id_set_enable: "ch_id_bytes (state_of (set_enable c b)) = ch_id_bytes c"
proof (rule send_cases [of c "if b then [0x10, 0x02, 0x00, 0x01, 0x50, 0x01]
    else [0x10, 0x02, 0x00, 0x02, 0x50, 0x01]" None])
  fix e c1
  assume "send c (if b then [0x10, 0x02, 0x00, 0x01, 0x50, 0x01]
    else [0x10, 0x02, 0x00, 0x02, 0x50, 0x01]) None = Inl (e, c1)"
    and "ch_id_bytes c1 = ch_id_bytes c"
  then show ?thesis
    by (simp add: set_enable_def state_of_simps)
next
  fix r c1
  assume s: "send c (if b then [0x10, 0x02, 0x00, 0x01, 0x50, 0x01]
    else [0x10, 0x02, 0x00, 0x02, 0x50, 0x01]) None = Inr (r, c1)"
    and c1: "ch_id_bytes c1 = ch_id_bytes c"
  have "ch_id_bytes (state_of (get_enable c1)) = ch_id_bytes c"
    by (simp add: ch_id_get_enable c1)
  then show ?thesis
    using s by (cases "get_enable c1") (auto simp: set_enable_def state_of_simps)
qed

lemma ch_id_home: "ch_id_bytes (state_of (home c)) = ch_id_bytes c"
  by (rule send_cases [of c "[0x43, 0x04, 0x00, 0x00, 0x50, 0x01]" "Some 6"])
     (auto simp: home_def state_of_simps)

lemma ch_id_identify: "ch_id_bytes (state_of (identify c)) = ch_id_bytes c"
  by (simp add: identify_def ch_id_send)

lemma written_finish_move: "written (calls (port (state_of (finish_move c)))) = written (calls (port c))"
  by (auto simp: finish_move_def state_of_def port_read_def written_append
        split: option.splits bool.splits)

lemma move_mm_unset_channel:
  assumes "ch_id_bytes c = None"
  shows "\<exists>e c'. move_mm c mv rel blk = Inl (e, c') \<and> (e = AttributeError \<or> e = OverflowError)
      \<and> ch_id_bytes c' = None \<and> written (calls (port c')) = written (calls (port c))"
proof (cases "moving c")
  case None
  then show ?thesis
    using assms by (simp add: move_mm_no_moving)
next
  case (Some m)
  have c1: "ch_id_bytes (state_of (resolve_pending c)) = None"
    "written (calls (port (state_of (resolve_pending c)))) = written (calls (port c))"
    using assms by (simp_all add: ch_id_resolve_pending written_resolve_pending [OF Some])
  obtain c1 where r: "resolve_pending c = Inr ((), c1)" and s: "state_of (resolve_pending c) = c1"
    using resolve_pending_eq [OF Some] by (simp add: state_of_simps)
  show ?thesis
    using c1 unfolding s
    by (cases rel)
       (auto simp: move_mm_def r build_move_def Let_def split: option.splits)
qed

text \<open>
  C9, as the code has it. A position query that returns stores bytes 6 and 7 of the
  reply as they came: two bytes when the reply has at least 8, one or none when it is
  shorter. A move that returns has written its 6-byte header, then the stored bytes
  unchanged, then the four bytes of the position, so a command of 10 bytes plus the
  stored ones, and keeps them stored; after a query, these are bytes 6 and 7 of that
  query's reply. No other method touches the stored bytes, whether it returns or raises.
  With nothing stored a move raises (AttributeError, or OverflowError when the count
  does not fit and \<open>to_bytes\<close> raises first) and writes nothing.
\<close>

theorem channel_embedded_verbatim:
  "(get_position_mm c = Inr (x, c') \<longrightarrow>
      ch_id_bytes c' = Some (py_slice (available (port c)) 6 8)
      \<and> length (py_slice (available (port c)) 6 8) = min 2 (length (available (port c)) - 6)
      \<and> (8 \<le> length (available (port c)) \<longrightarrow> length (py_slice (available (port c)) 6 8) = 2))
   \<and> (move_mm c mv rel blk = Inr (u, c') \<longrightarrow>
      (\<exists>ch p. ch_id_bytes c = Some ch \<and> ch_id_bytes c' = Some ch \<and> length p = 4
         \<and> written (calls (port c')) = written (calls (port c))
              @ [(if rel then [0x48, 0x04, 0x06, 0x00, 0xD0, 0x01]
                  else [0x53, 0x04, 0x06, 0x00, 0xD0, 0x01]) @ ch @ p]
         \<and> length ((if rel then [0x48, 0x04, 0x06, 0x00, 0xD0, 0x01]
                      else [0x53, 0x04, 0x06, 0x00, 0xD0, 0x01]) @ ch @ p) = 10 + length ch))
   \<and> (get_position_mm c = Inr (x, c1) \<and> move_mm c1 mv rel blk = Inr (u, c2) \<longrightarrow>
      (\<exists>p. length p = 4
         \<and> written (calls (port c2)) = written (calls (port c))
              @ [[0x11, 0x04, 0x00, 0x00, 0x50, 0x01],
                 (if rel then [0x48, 0x04, 0x06, 0x00, 0xD0, 0x01]
                  else [0x53, 0x04, 0x06, 0x00, 0xD0, 0x01])
                 @ py_slice (available (port c)) 6 8 @ p]))
   \<and> (ch_id_bytes c = None \<longrightarrow>
      (\<exists>e c'. move_mm c mv rel blk = Inl (e, c') \<and> (e = AttributeError \<or> e = OverflowError)
         \<and> ch_id_bytes c' = None \<and> written (calls (port c')) = written (calls (port c))))
   \<and> ch_id_bytes (state_of (finish_move c)) = ch_id_bytes c
   \<and> ch_id_bytes (state_of (get_info c)) = ch_id_bytes c
   \<and> ch_id_bytes (state_of (get_enable c)) = ch_id_bytes c
   \<and> ch_id_bytes (state_of (set_enable c b)) = ch_id_bytes c
   \<and> ch_id_bytes (state_of (home c)) = ch_id_bytes c
   \<and> ch_id_bytes (state_of (identify c)) = ch_id_bytes c"
proof (intro conjI impI)
  assume "get_position_mm c = Inr (x, c')"
  then show "ch_id_bytes c' = Some (py_slice (available (port c)) 6 8)"
    by (auto simp: get_position_mm_eq split: if_splits)
next
  show "length (py_slice (available (port c)) 6 8) = min 2 (length (available (port c)) - 6)"
    by (simp add: py_slice_def min_def)
next
  assume "8 \<le> length (available (port c))"
  then show "length (py_slice (available (port c)) 6 8) = 2"
    by (simp add: py_slice_def)
next
  assume "move_mm c mv rel blk = Inr (u, c')"
  from move_mm_Inr_written [OF this] obtain ch p where
    "ch_id_bytes c = Some ch" "ch_id_bytes c' = Some ch"
    "to_bytes4_signed (if rel then py_round (mv * of_int EncCnt_per_mm)
                       else py_round (mv * of_int EncCnt_per_mm) + offset_counts) = Some p"
    "written (calls (port c')) = written (calls (port c))
       @ [(if rel then [0x48, 0x04, 0x06, 0x00, 0xD0, 0x01]
           else [0x53, 0x04, 0x06, 0x00, 0xD0, 0x01]) @ ch @ p]"
    by blast
  moreover from this have "length p = 4"
    by (simp add: to_bytes4_signed_length)
  moreover from this have "length ((if rel then [0x48, 0x04, 0x06, 0x00, 0xD0, 0x01]
      else [0x53, 0x04, 0x06, 0x00, 0xD0, 0x01]) @ ch @ p) = 10 + length ch"
    by simp
  ultimately show "\<exists>ch p. ch_id_bytes c = Some ch \<and> ch_id_bytes c' = Some ch \<and> length p = 4
         \<and> written (calls (port c')) = written (calls (port c))
              @ [(if rel then [0x48, 0x04, 0x06, 0x00, 0xD0, 0x01]
                  else [0x53, 0x04, 0x06, 0x00, 0xD0, 0x01]) @ ch @ p]
         \<and> length ((if rel then [0x48, 0x04, 0x06, 0x00, 0xD0, 0x01]
                      else [0x53, 0x04, 0x06, 0x00, 0xD0, 0x01]) @ ch @ p) = 10 + length ch"
    by blast
next
  assume both: "get_position_mm c = Inr (x, c1) \<and> move_mm c1 mv rel blk = Inr (u, c2)"
  then have stored: "ch_id_bytes c1 = Some (py_slice (available (port c)) 6 8)"
    by (auto simp: get_position_mm_eq split: if_splits)
  from both have query: "written (calls (port c1))
      = written (calls (port c)) @ [[0x11, 0x04, 0x00, 0x00, 0x50, 0x01]]"
    by (auto simp: get_position_mm_eq calls_port_read calls_port_write written_append
          split: if_splits)
  from both have "move_mm c1 mv rel blk = Inr (u, c2)"
    by simp
  from move_mm_Inr_written [OF this] obtain ch p where
    ch: "ch_id_bytes c1 = Some ch"
    and p: "to_bytes4_signed (if rel then py_round (mv * of_int EncCnt_per_mm)
                       else py_round (mv * of_int EncCnt_per_mm) + offset_counts) = Some p"
    and w: "written (calls (port c2)) = written (calls (port c1))
       @ [(if rel then [0x48, 0x04, 0x06, 0x00, 0xD0, 0x01]
           else [0x53, 0x04, 0x06, 0x00, 0xD0, 0x01]) @ ch @ p]"
    by blast
  from ch stored have ch_eq: "ch = py_slice (available (port c)) 6 8"
    by simp
  have "length p = 4"
    using p by (rule to_bytes4_signed_length)
  moreover have "written (calls (port c2)) = written (calls (port c))
              @ [[0x11, 0x04, 0x00, 0x00, 0x50, 0x01],
                 (if rel then [0x48, 0x04, 0x06, 0x00, 0xD0, 0x01]
                  else [0x53, 0x04, 0x06, 0x00, 0xD0, 0x01])
                 @ py_slice (available (port c)) 6 8 @ p]"
    unfolding w query ch_eq by simp
  ultimately show "\<exists>p. length p = 4
         \<and> written (calls (port c2)) = written (calls (port c))
              @ [[0x11, 0x04, 0x00, 0x00, 0x50, 0x01],
                 (if rel then [0x48, 0x04, 0x06, 0x00, 0xD0, 0x01]
                  else [0x53, 0x04, 0x06, 0x00, 0xD0, 0x01])
                 @ py_slice (available (port c)) 6 8 @ p]"
    by blast
next
  assume "ch_id_bytes c = None"
  then show "\<exists>e c'. move_mm c mv rel blk = Inl (e, c') \<and> (e = AttributeError \<or> e = OverflowError)
         \<and> ch_id_bytes c' = None \<and> written (calls (port c')) = written (calls (port c))"
    by (rule move_mm_unset_channel)
qed (rule ch_id_finish_move ch_id_get_info ch_id_get_enable ch_id_set_enable ch_id_home
      ch_id_identify)+

text \<open>The device answers from channel 2: the relative move of 5 mm that follows carries
  the bytes 02 00 after its header. On the object without a channel the absolute move
  raises AttributeError and the port sees nothing.\<close>

theorem channel_embedded_verbatim_witness:
  "get_position_mm query_session = Inr (0, state_of (get_position_mm query_session))
   \<and> ch_id_bytes (state_of (get_position_mm query_session)) = Some [0x02, 0x00]
   \<and> move_mm (state_of (get_position_mm query_session)) 5 True True
       = Inr ((), state_of (move_mm (state_of (get_position_mm query_session)) 5 True True))
   \<and> written (calls (port (state_of
         (move_mm (state_of (get_position_mm query_session)) 5 True True))))
       = [[0x11, 0x04, 0x00, 0x00, 0x50, 0x01],
          [0x48, 0x04, 0x06, 0x00, 0xD0, 0x01, 0x02, 0x00, 0x10, 0x27, 0x00, 0x00]]
   \<and> ch_id_bytes no_channel_session = None
   \<and> move_mm no_channel_session 5 False True
       = Inl (AttributeError, no_channel_session\<lparr>position_mm := Some 5\<rparr>)
   \<and> written (calls (port (state_of (move_mm no_channel_session 5 False True)))) = []"
proof -
  let ?q1 = "state_of (get_position_mm query_session)"
  let ?q2 = "state_of (move_mm ?q1 5 True True)"
  have query: "get_position_mm query_session = Inr (0, ?q1)"
    by code_simp
  have "ch_id_bytes ?q1 = Some (py_slice (available (port query_session)) 6 8)"
    using channel_embedded_verbatim [where c = query_session and x = 0 and c' = ?q1] query
    by blast
  moreover have reply: "py_slice (available (port query_session)) 6 8 = [0x02, 0x00]"
    by (simp add: query_session_def idle_session_def available_def py_slice_def)
  ultimately have ch: "ch_id_bytes ?q1 = Some [0x02, 0x00]"
    by simp
  have move: "move_mm ?q1 5 True True = Inr ((), ?q2)"
    by code_simp
  have "\<exists>p. length p = 4
      \<and> written (calls (port ?q2)) = written (calls (port query_session))
           @ [[0x11, 0x04, 0x00, 0x00, 0x50, 0x01],
              (if True then [0x48, 0x04, 0x06, 0x00, 0xD0, 0x01]
               else [0x53, 0x04, 0x06, 0x00, 0xD0, 0x01])
              @ py_slice (available (port query_session)) 6 8 @ p]"
    using channel_embedded_verbatim [where c = query_session and x = 0 and ?c1.0 = ?q1
        and mv = 5 and rel = True and blk = True and u = "()" and ?c2.0 = ?q2] query move
    by blast
  then obtain p where p: "length p = 4"
    and w0: "written (calls (port ?q2)) = written (calls (port query_session))
           @ [[0x11, 0x04, 0x00, 0x00, 0x50, 0x01],
              (if True then [0x48, 0x04, 0x06, 0x00, 0xD0, 0x01]
               else [0x53, 0x04, 0x06, 0x00, 0xD0, 0x01])
              @ py_slice (available (port query_session)) 6 8 @ p]"
    by blast
  have before: "written (calls (port query_session)) = []"
    by (simp add: query_session_def idle_session_def)
  have w: "written (calls (port ?q2))
      = [[0x11, 0x04, 0x00, 0x00, 0x50, 0x01],
         [0x48, 0x04, 0x06, 0x00, 0xD0, 0x01, 0x02, 0x00] @ p]"
    unfolding w0 reply before by simp
  have last: "last (written (calls (port ?q2)))
      = [0x48, 0x04, 0x06, 0x00, 0xD0, 0x01, 0x02, 0x00, 0x10, 0x27, 0x00, 0x00]"
    by code_simp
  have full: "written (calls (port ?q2))
       = [[0x11, 0x04, 0x00, 0x00, 0x50, 0x01],
          [0x48, 0x04, 0x06, 0x00, 0xD0, 0x01, 0x02, 0x00, 0x10, 0x27, 0x00, 0x00]]"
    using w last by simp
  have unset: "ch_id_bytes no_channel_session = None"
    by (simp add: no_channel_session_def)
  have raised: "move_mm no_channel_session 5 False True
       = Inl (AttributeError, no_channel_session\<lparr>position_mm := Some 5\<rparr>)"
    by code_simp
  have "\<exists>e c'. move_mm no_channel_session 5 False True = Inl (e, c')
      \<and> (e = AttributeError \<or> e = OverflowError) \<and> ch_id_bytes c' = None
      \<and> written (calls (port c')) = written (calls (port no_channel_session))"
    using channel_embedded_verbatim [where c = no_channel_session and mv = 5 and rel = False
        and blk = True] unset
    by blast
  then have "written (calls (port (state_of (move_mm no_channel_session 5 False True))))
      = written (calls (port no_channel_session))"
    by (auto simp: state_of_simps)
  then have nothing: "written (calls (port (state_of (move_mm no_channel_session 5 False True)))) = []"
    by (simp add: no_channel_session_def idle_session_def)
  show ?thesis
    apply (intro conjI)
          apply (fact query)
         apply (fact ch)
        apply (fact move)
       apply (fact full)
      apply (fact unset)
     apply (fact raised)
    apply (fact nothing)
    done
qed

text \<open>
  C9 as the specification states it fails: a move command does not always carry a
  2-byte channel id. A position reply that stops after its 6-byte header is accepted and
  stores the empty byte string as the channel; the absolute move to 5 mm that follows
  returns, and what it has written is a command of 10 bytes, the header followed at once
  by the position.
\<close>

theorem header_only_reply_gives_move_without_channel:
  "available (port header_only_session) = [0x12, 0x04, 0x06, 0x00, 0x81, 0x50]
   \<and> ch_id_bytes (state_of (get_position_mm header_only_session)) = Some []
   \<and> move_mm (state_of (get_position_mm header_only_session)) 5 False True
       = Inr ((), state_of (move_mm (state_of (get_position_mm header_only_session)) 5 False True))
   \<and> written (calls (port (state_of
         (move_mm (state_of (get_position_mm header_only_session)) 5 False True))))
       = [[0x11, 0x04, 0x00, 0x00, 0x50, 0x01],
          [0x53, 0x04, 0x06, 0x00, 0xD0, 0x01, 0x74, 0x27, 0x00, 0x00]]"
proof (intro conjI)
  show "available (port header_only_session) = [0x12, 0x04, 0x06, 0x00, 0x81, 0x50]"
    by code_simp
  show "ch_id_bytes (state_of (get_position_mm header_only_session)) = Some []"
    by code_simp
  show "move_mm (state_of (get_position_mm header_only_session)) 5 False True
       = Inr ((), state_of (move_mm (state_of (get_position_mm header_only_session)) 5 False True))"
    by code_simp
  show "written (calls (port (state_of
         (move_mm (state_of (get_position_mm header_only_session)) 5 False True))))
       = [[0x11, 0x04, 0x00, 0x00, 0x50, 0x01],
          [0x53, 0x04, 0x06, 0x00, 0xD0, 0x01, 0x74, 0x27, 0x00, 0x00]]"
    by code_simp
qed

section \<open>The range check\<close>

text \<open>
  C1. \<open>move_mm\<close> assigns \<open>self.position_mm\<close> (lines 139 and 143) before the two range
  assertions (lines 147 and 148), and nothing puts the old value back when they fail.
  From the idle session at 0 mm a relative move of -200 mm raises AssertionError with
  nothing written, and leaves -200 mm as the cached position. The relative move of
  250 mm that follows is checked against that: it passes as a move to 50 mm, returns,
  and has written the relative move of 500000 counts, 250 mm of travel for a stage that
  stands at 0 mm. Issued on the untouched session, the same move is refused.
\<close>

theorem rejected_move_defeats_range_check:
  "move_mm (idle_session [replicate 20 0x00]) (- 200) True True
     = Inl (AssertionError, (idle_session [replicate 20 0x00])\<lparr>position_mm := Some (- 200)\<rparr>)
   \<and> state_of (move_mm (idle_session [replicate 20 0x00]) (- 200) True True)
       \<noteq> idle_session [replicate 20 0x00]
   \<and> written (calls (port (state_of
         (move_mm (idle_session [replicate 20 0x00]) (- 200) True True)))) = []
   \<and> move_mm (state_of (move_mm (idle_session [replicate 20 0x00]) (- 200) True True))
         250 True True
       = Inr ((), (idle_session [])\<lparr>position_mm := Some 50,
            port := \<lparr>calls = [Write [0x48, 0x04, 0x06, 0x00, 0xD0, 0x01, 0x01, 0x00,
                                       0x20, 0xA1, 0x07, 0x00], Read 20],
                     in_buf = [], arrivals = []\<rparr>\<rparr>)
   \<and> from_bytes_little_signed [0x20, 0xA1, 0x07, 0x00] = 500000
   \<and> move_mm (idle_session [replicate 20 0x00]) 250 True True
       = Inl (AssertionError, (idle_session [replicate 20 0x00])\<lparr>position_mm := Some 250\<rparr>)"
proof (intro conjI)
  show "move_mm (idle_session [replicate 20 0x00]) (- 200) True True
     = Inl (AssertionError, (idle_session [replicate 20 0x00])\<lparr>position_mm := Some (- 200)\<rparr>)"
    by code_simp
  show "state_of (move_mm (idle_session [replicate 20 0x00]) (- 200) True True)
       \<noteq> idle_session [replicate 20 0x00]"
    by code_simp
  show "written (calls (port (state_of
         (move_mm (idle_session [replicate 20 0x00]) (- 200) True True)))) = []"
    by code_simp
  show "move_mm (state_of (move_mm (idle_session [replicate 20 0x00]) (- 200) True True))
         250 True True
       = Inr ((), (idle_session [])\<lparr>position_mm := Some 50,
            port := \<lparr>calls = [Write [0x48, 0x04, 0x06, 0x00, 0xD0, 0x01, 0x01, 0x00,
                                       0x20, 0xA1, 0x07, 0x00], Read 20],
                     in_buf = [], arrivals = []\<rparr>\<rparr>)"
    by code_simp
  show "from_bytes_little_signed [0x20, 0xA1, 0x07, 0x00] = 500000"
    by code_simp
  show "move_mm (idle_session [replicate 20 0x00]) 250 True True
       = Inl (AssertionError, (idle_session [replicate 20 0x00])\<lparr>position_mm := Some 250\<rparr>)"
    by code_simp
qed

section \<open>Decoding the position reply\<close>

text \<open>
  C4. The position reply is read with \<open>int.from_bytes(..., byteorder='little')\<close>, which is
  unsigned. An absolute move to -0.1 mm passes the range check and carries the count
  -100 as the bytes 9C FF FF FF (\<open>to_bytes\<close> with \<open>signed=True\<close>); a position reply with
  these bytes is the count -100 read signed, but \<open>get_position_mm\<close> reads 4294967196 and
  returns and stores 4294967196/2000 - 1/20 mm. The channel bytes 6 and 7 are stored.
\<close>

theorem position_reply_read_unsigned:
  "written (calls (port (state_of (move_mm (idle_session [replicate 20 0x00]) (- 1 / 10) False True))))
     = [[0x53, 0x04, 0x06, 0x00, 0xD0, 0x01, 0x01, 0x00, 0x9C, 0xFF, 0xFF, 0xFF]]
   \<and> from_bytes_little_signed [0x9C, 0xFF, 0xFF, 0xFF] = - 100
   \<and> from_bytes_little [0x9C, 0xFF, 0xFF, 0xFF] = 4294967196
   \<and> get_position_mm below_zero_session
       = Inr (4294967196 / 2000 - 1 / 20,
              (idle_session [])\<lparr>port :=
                  \<lparr>calls = [Write [0x11, 0x04, 0x00, 0x00, 0x50, 0x01], Read 12],
                   in_buf = [], arrivals = []\<rparr>,
                ch_id_bytes := Some [0x01, 0x00],
                position_mm := Some (4294967196 / 2000 - 1 / 20)\<rparr>)
   \<and> of_int (from_bytes_little_signed [0x9C, 0xFF, 0xFF, 0xFF]) / of_int EncCnt_per_mm - offset_mm
       = (- 1 / 10 :: rat)"
proof (intro conjI)
  show "written (calls (port (state_of
      (move_mm (idle_session [replicate 20 0x00]) (- 1 / 10) False True))))
     = [[0x53, 0x04, 0x06, 0x00, 0xD0, 0x01, 0x01, 0x00, 0x9C, 0xFF, 0xFF, 0xFF]]"
    by code_simp
  show "from_bytes_little_signed [0x9C, 0xFF, 0xFF, 0xFF] = - 100"
    by code_simp
  show "from_bytes_little [0x9C, 0xFF, 0xFF, 0xFF] = 4294967196"
    by code_simp
  show "get_position_mm below_zero_session
       = Inr (4294967196 / 2000 - 1 / 20,
              (idle_session [])\<lparr>port :=
                  \<lparr>calls = [Write [0x11, 0x04, 0x00, 0x00, 0x50, 0x01], Read 12],
                   in_buf = [], arrivals = []\<rparr>,
                ch_id_bytes := Some [0x01, 0x00],
                position_mm := Some (4294967196 / 2000 - 1 / 20)\<rparr>)"
    by code_simp
  show "of_int (from_bytes_little_signed [0x9C, 0xFF, 0xFF, 0xFF]) / of_int EncCnt_per_mm - offset_mm
       = (- 1 / 10 :: rat)"
    by code_simp
qed

section \<open>What the exchanges check\<close>

lemma nth_take_6: "3 < length xs \<Longrightarrow> take 6 xs ! 3 = xs ! 3"
  by simp

text \<open>\<open>_get_enable\<close> by the bytes that are there to read.\<close>

lemma get_enable_eq:
  "get_enable c =
     (let a = available (port c);
          c1 = c\<lparr>port := snd (port_read (port_write (port c) [0x11, 0x02, 0x00, 0x00, 0x50, 0x01]) 6)\<rparr>
      in if 6 < length a then Inl (AssertionError, c1)
         else if length a \<le> 3 then Inl (IndexError, c1)
         else if a ! 3 = 1 then Inr (True, c1\<lparr>enable := Some True\<rparr>)
         else if a ! 3 = 2 then Inr (False, c1\<lparr>enable := Some False\<rparr>)
         else Inl (AssertionError, c1))"
  by (simp add: get_enable_def send_Some Let_def not_le)

lemma home_eq:
  "home c =
     (if length (available (port c)) \<le> 6
      then Inr ((), c\<lparr>port := snd (port_read (port_write (port c) [0x43, 0x04, 0x00, 0x00, 0x50, 0x01]) 6)\<rparr>)
      else Inl (AssertionError,
                c\<lparr>port := snd (port_read (port_write (port c) [0x43, 0x04, 0x00, 0x00, 0x50, 0x01]) 6)\<rparr>))"
  by (simp add: home_def send_Some)

lemma get_info_long:
  "90 < length (available (port c)) \<Longrightarrow>
   get_info c = Inl (AssertionError,
     c\<lparr>port := snd (port_read (port_write (port c) [0x05, 0x00, 0x00, 0x00, 0x50, 0x01]) 90)\<rparr>)"
  by (simp add: get_info_def send_Some)

text \<open>
  C5, as the code has it. \<open>_send\<close> returns only with an empty receive buffer and raises
  AssertionError otherwise, which is what happens when more bytes than the expected
  reply were there to read, in each of the four methods that read a reply.
  \<open>_get_enable\<close> raises AssertionError on a status byte other than 1 and 2, and
  IndexError when the reply has no byte 3. There is no check of the length itself: a
  reply shorter than expected is decoded as it came, so \<open>get_position_mm\<close> returns for
  every reply of at most 12 bytes, reading the count from whatever bytes 8 to 11 hold
  (the count 0 when there are none), and \<open>_home\<close> returns for every reply of at most 6.
\<close>

theorem leftover_and_status_checked_length_not:
  "(send c cmd n = Inr (r, c') \<longrightarrow> port_inWaiting (port c') = 0)
   \<and> (port_inWaiting (port (state_of (send c cmd n))) \<noteq> 0 \<longrightarrow>
        send c cmd n = Inl (AssertionError, state_of (send c cmd n)))
   \<and> (k < length (available (port c)) \<longrightarrow>
        send c cmd (Some k) = Inl (AssertionError, state_of (send c cmd (Some k))))
   \<and> (90 < length (available (port c)) \<longrightarrow>
        get_info c = Inl (AssertionError, state_of (get_info c)))
   \<and> (6 < length (available (port c)) \<longrightarrow>
        get_enable c = Inl (AssertionError, state_of (get_enable c))
        \<and> home c = Inl (AssertionError, state_of (home c)))
   \<and> (12 < length (available (port c)) \<longrightarrow>
        get_position_mm c = Inl (AssertionError, state_of (get_position_mm c)))
   \<and> (3 < length (available (port c)) \<and> available (port c) ! 3 \<noteq> 1
        \<and> available (port c) ! 3 \<noteq> 2 \<longrightarrow>
        get_enable c = Inl (AssertionError, state_of (get_enable c)))
   \<and> (length (available (port c)) \<le> 3 \<longrightarrow>
        get_enable c = Inl (IndexError, state_of (get_enable c)))
   \<and> (length (available (port c)) \<le> 12 \<longrightarrow>
        get_position_mm c
          = Inr (of_int (from_bytes_little (py_slice (available (port c)) 8 12)) / of_int EncCnt_per_mm
                   - offset_mm,
                 state_of (get_position_mm c)))
   \<and> (length (available (port c)) \<le> 8 \<longrightarrow>
        get_position_mm c = Inr (- offset_mm, state_of (get_position_mm c)))
   \<and> (length (available (port c)) \<le> 6 \<longrightarrow> home c = Inr ((), state_of (home c)))"
proof (intro conjI impI)
  assume "send c cmd n = Inr (r, c')"
  then show "port_inWaiting (port c') = 0"
    by (rule send_Inr_empty)
next
  assume "port_inWaiting (port (state_of (send c cmd n))) \<noteq> 0"
  then show "send c cmd n = Inl (AssertionError, state_of (send c cmd n))"
    by (cases n)
       (auto simp: send_None send_Some state_of_simps port_inWaiting_def in_buf_port_write
          in_buf_port_read available_port_write split: if_splits)
next
  assume "k < length (available (port c))"
  then show "send c cmd (Some k) = Inl (AssertionError, state_of (send c cmd (Some k)))"
    by (simp add: send_Some state_of_simps)
next
  assume "90 < length (available (port c))"
  then show "get_info c = Inl (AssertionError, state_of (get_info c))"
    by (simp add: get_info_long state_of_simps)
next
  assume "6 < length (available (port c))"
  then show "get_enable c = Inl (AssertionError, state_of (get_enable c))"
    and "home c = Inl (AssertionError, state_of (home c))"
    by (simp_all add: get_enable_eq home_eq Let_def state_of_simps)
next
  assume "12 < length (available (port c))"
  then show "get_position_mm c = Inl (AssertionError, state_of (get_position_mm c))"
    by (simp add: get_position_mm_eq state_of_simps)
next
  assume "3 < length (available (port c)) \<and> available (port c) ! 3 \<noteq> 1
        \<and> available (port c) ! 3 \<noteq> 2"
  then show "get_enable c = Inl (AssertionError, state_of (get_enable c))"
    by (simp add: get_enable_eq Let_def state_of_simps)
next
  assume "length (available (port c)) \<le> 3"
  then show "get_enable c = Inl (IndexError, state_of (get_enable c))"
    by (simp add: get_enable_eq Let_def state_of_simps)
next
  assume "length (available (port c)) \<le> 12"
  then show "get_position_mm c
          = Inr (of_int (from_bytes_little (py_slice (available (port c)) 8 12)) / of_int EncCnt_per_mm
                   - offset_mm,
                 state_of (get_position_mm c))"
    by (simp add: get_position_mm_eq state_of_simps)
next
  assume "length (available (port c)) \<le> 8"
  then show "get_position_mm c = Inr (- offset_mm, state_of (get_position_mm c))"
    by (simp add: get_position_mm_eq state_of_simps py_slice_def)
next
  assume "length (available (port c)) \<le> 6"
  then show "home c = Inr ((), state_of (home c))"
    by (simp add: home_eq state_of_simps)
qed

text \<open>A position reply of 8 bytes is accepted and read as the count 0; one of 13 bytes
  leaves a byte in the buffer and raises; a channel state reply with status 3 raises,
  and so does one of 3 bytes, as IndexError.\<close>

theorem leftover_and_status_checked_length_not_witness:
  "get_position_mm short_reply_session
     = Inr (- 1 / 20, state_of (get_position_mm short_reply_session))
   \<and> get_position_mm (idle_session [replicate 13 0x00])
       = Inl (AssertionError, state_of (get_position_mm (idle_session [replicate 13 0x00])))
   \<and> get_enable (idle_session [[0x12, 0x02, 0x01, 0x03, 0x01, 0x50]])
       = Inl (AssertionError, state_of (get_enable (idle_session [[0x12, 0x02, 0x01, 0x03, 0x01, 0x50]])))
   \<and> get_enable (idle_session [[0x12, 0x02, 0x01]])
       = Inl (IndexError, state_of (get_enable (idle_session [[0x12, 0x02, 0x01]])))"
proof -
  have short: "length (available (port short_reply_session)) \<le> 8"
    by (simp add: short_reply_session_def idle_session_def available_def)
  have "get_position_mm short_reply_session
      = Inr (- offset_mm, state_of (get_position_mm short_reply_session))"
    using leftover_and_status_checked_length_not [where c = short_reply_session] short
    by blast
  then have a: "get_position_mm short_reply_session
      = Inr (- 1 / 20, state_of (get_position_mm short_reply_session))"
    by (simp add: offset_mm_def)
  have long: "12 < length (available (port (idle_session [replicate 13 0x00])))"
    by (simp add: idle_session_def available_def)
  have b: "get_position_mm (idle_session [replicate 13 0x00])
       = Inl (AssertionError, state_of (get_position_mm (idle_session [replicate 13 0x00])))"
    using leftover_and_status_checked_length_not [where c = "idle_session [replicate 13 0x00]"]
      long
    by blast
  have status: "3 < length (available (port (idle_session [[0x12, 0x02, 0x01, 0x03, 0x01, 0x50]])))
      \<and> available (port (idle_session [[0x12, 0x02, 0x01, 0x03, 0x01, 0x50]])) ! 3 \<noteq> 1
      \<and> available (port (idle_session [[0x12, 0x02, 0x01, 0x03, 0x01, 0x50]])) ! 3 \<noteq> 2"
    by (simp add: idle_session_def available_def)
  have c: "get_enable (idle_session [[0x12, 0x02, 0x01, 0x03, 0x01, 0x50]])
       = Inl (AssertionError, state_of (get_enable (idle_session [[0x12, 0x02, 0x01, 0x03, 0x01, 0x50]])))"
    using leftover_and_status_checked_length_not
      [where c = "idle_session [[0x12, 0x02, 0x01, 0x03, 0x01, 0x50]]"] status
    by blast
  have cut: "length (available (port (idle_session [[0x12, 0x02, 0x01]]))) \<le> 3"
    by (simp add: idle_session_def available_def)
  have d: "get_enable (idle_session [[0x12, 0x02, 0x01]])
       = Inl (IndexError, state_of (get_enable (idle_session [[0x12, 0x02, 0x01]])))"
    using leftover_and_status_checked_length_not [where c = "idle_session [[0x12, 0x02, 0x01]]"] cut
    by blast
  show ?thesis
    apply (intro conjI)
       apply (fact a)
      apply (fact b)
     apply (fact c)
    apply (fact d)
    done
qed

text \<open>
  C5 as the specification states it fails: a reply of unexpected length is not always
  fatal. The position query whose reply stops after 8 of the 12 bytes returns normally,
  with -0.05 mm as the position, the value of a counter at 0 that the device never
  sent; and \<open>_home\<close> returns when no byte at all came back.
\<close>

theorem short_reply_accepted:
  "get_position_mm short_reply_session
     = Inr (- 1 / 20,
            (idle_session [])\<lparr>port :=
                \<lparr>calls = [Write [0x11, 0x04, 0x00, 0x00, 0x50, 0x01], Read 12],
                 in_buf = [], arrivals = []\<rparr>,
              ch_id_bytes := Some [0x02, 0x00],
              position_mm := Some (- 1 / 20)\<rparr>)
   \<and> available (port short_reply_session) = [0x12, 0x04, 0x06, 0x00, 0x81, 0x50, 0x02, 0x00]
   \<and> home (idle_session [])
       = Inr ((), (idle_session [])\<lparr>port :=
                \<lparr>calls = [Write [0x43, 0x04, 0x00, 0x00, 0x50, 0x01], Read 6],
                 in_buf = [], arrivals = []\<rparr>\<rparr>)"
proof (intro conjI)
  show "get_position_mm short_reply_session
     = Inr (- 1 / 20,
            (idle_session [])\<lparr>port :=
                \<lparr>calls = [Write [0x11, 0x04, 0x00, 0x00, 0x50, 0x01], Read 12],
                 in_buf = [], arrivals = []\<rparr>,
              ch_id_bytes := Some [0x02, 0x00],
              position_mm := Some (- 1 / 20)\<rparr>)"
    by code_simp
  show "available (port short_reply_session) = [0x12, 0x04, 0x06, 0x00, 0x81, 0x50, 0x02, 0x00]"
    by code_simp
  show "home (idle_session [])
       = Inr ((), (idle_session [])\<lparr>port :=
                \<lparr>calls = [Write [0x43, 0x04, 0x00, 0x00, 0x50, 0x01], Read 6],
                 in_buf = [], arrivals = []\<rparr>\<rparr>)"
    by code_simp
qed

section \<open>Enabling the channel\<close>

lemma set_enable_eq:
  "set_enable c b =
     (let cmd = (if b then [0x10, 0x02, 0x00, 0x01, 0x50, 0x01]
                 else [0x10, 0x02, 0x00, 0x02, 0x50, 0x01]);
          c1 = c\<lparr>port := port_write (port c) cmd\<rparr>
      in if in_buf (port c) \<noteq> [] then Inl (AssertionError, c1)
         else case get_enable c1 of
                Inl e \<Rightarrow> Inl e
              | Inr (b', c2) \<Rightarrow> if b' = b then Inr ((), c2) else Inl (AssertionError, c2))"
  by (simp add: set_enable_def send_None Let_def)

lemma get_enable_InrD:
  assumes "get_enable c = Inr (b, c')"
  shows "3 < length (available (port c)) \<and> length (available (port c)) \<le> 6
    \<and> available (port c) ! 3 = (if b then 1 else 2)
    \<and> c' = c\<lparr>port := port c', enable := Some b\<rparr>
    \<and> calls (port c') = calls (port c) @ [Write [0x11, 0x02, 0x00, 0x00, 0x50, 0x01], Read 6]"
  using assms
  by (auto simp: get_enable_eq Let_def calls_port_read calls_port_write split: if_splits)

lemma set_enable_InrD:
  assumes "set_enable c b = Inr (u, c')"
  shows "in_buf (port c) = [] \<and> 3 < length (available (port c))
    \<and> length (available (port c)) \<le> 6
    \<and> available (port c) ! 3 = (if b then 1 else 2)
    \<and> c' = c\<lparr>port := port c', enable := Some b\<rparr>
    \<and> calls (port c') = calls (port c)
          @ [Write (if b then [0x10, 0x02, 0x00, 0x01, 0x50, 0x01]
                    else [0x10, 0x02, 0x00, 0x02, 0x50, 0x01]),
             Write [0x11, 0x02, 0x00, 0x00, 0x50, 0x01], Read 6]"
proof -
  let ?cmd = "if b then [0x10, 0x02, 0x00, 0x01, 0x50, 0x01]
              else [0x10, 0x02, 0x00, 0x02, 0x50, 0x01]"
  let ?c1 = "c\<lparr>port := port_write (port c) ?cmd\<rparr>"
  from assms have buf: "in_buf (port c) = []"
    and get: "get_enable ?c1 = Inr (b, c')"
    by (auto simp: set_enable_eq Let_def split: if_splits sum.splits)
  from get_enable_InrD [OF get] have
    "3 < length (available (port c))" "length (available (port c)) \<le> 6"
    "available (port c) ! 3 = (if b then 1 else 2)"
    and c': "c' = ?c1\<lparr>port := port c', enable := Some b\<rparr>"
    and calls: "calls (port c') = calls (port ?c1) @ [Write [0x11, 0x02, 0x00, 0x00, 0x50, 0x01], Read 6]"
    by (simp_all add: available_port_write)
  moreover from c' have "c' = c\<lparr>port := port c', enable := Some b\<rparr>"
    by simp
  moreover from calls have "calls (port c') = calls (port c)
          @ [Write ?cmd, Write [0x11, 0x02, 0x00, 0x00, 0x50, 0x01], Read 6]"
    by (simp add: calls_port_write)
  ultimately show ?thesis
    using buf by simp
qed

text \<open>
  C6. \<open>_set_enable\<close> that returns has written the enable or the disable command, read
  nothing for it, then written the state request and read its 6 bytes; byte 3 of that
  reply was 1 for \<open>True\<close> and 2 for \<open>False\<close>, and the object holds the requested
  state. When the state read back is the other one, \<open>_set_enable\<close> raises
  AssertionError. \<open>_get_enable\<close> that returns gives \<open>True\<close> exactly on status 1 and
  \<open>False\<close> exactly on status 2, and stores what it gives.
\<close>

theorem set_enable_reads_back:
  "(set_enable c b = Inr (u, c') \<longrightarrow>
      enable c' = Some b
      \<and> calls (port c') = calls (port c)
          @ [Write (if b then [0x10, 0x02, 0x00, 0x01, 0x50, 0x01]
                    else [0x10, 0x02, 0x00, 0x02, 0x50, 0x01]),
             Write [0x11, 0x02, 0x00, 0x00, 0x50, 0x01], Read 6]
      \<and> 3 < length (available (port c))
      \<and> available (port c) ! 3 = (if b then 1 else 2))
   \<and> (send c (if b then [0x10, 0x02, 0x00, 0x01, 0x50, 0x01]
                else [0x10, 0x02, 0x00, 0x02, 0x50, 0x01]) None = Inr (r, c1)
        \<and> get_enable c1 = Inr (b', c2) \<and> b' \<noteq> b \<longrightarrow>
      set_enable c b = Inl (AssertionError, c2))
   \<and> (send c (if b then [0x10, 0x02, 0x00, 0x01, 0x50, 0x01]
                else [0x10, 0x02, 0x00, 0x02, 0x50, 0x01]) None = Inr (r, c1)
        \<and> get_enable c1 = Inr (b, c2) \<longrightarrow>
      set_enable c b = Inr ((), c2))
   \<and> (get_enable c = Inr (b, c') \<longrightarrow>
      enable c' = Some b \<and> 3 < length (available (port c))
      \<and> (b \<longleftrightarrow> available (port c) ! 3 = 1) \<and> (\<not> b \<longleftrightarrow> available (port c) ! 3 = 2))
   \<and> (3 < length (available (port c)) \<and> length (available (port c)) \<le> 6
        \<and> available (port c) ! 3 = 1 \<longrightarrow>
      get_enable c = Inr (True, state_of (get_enable c)))
   \<and> (3 < length (available (port c)) \<and> length (available (port c)) \<le> 6
        \<and> available (port c) ! 3 = 2 \<longrightarrow>
      get_enable c = Inr (False, state_of (get_enable c)))"
proof (intro conjI impI)
  assume "set_enable c b = Inr (u, c')"
  from set_enable_InrD [OF this]
  have c': "c' = c\<lparr>port := port c', enable := Some b\<rparr>"
    and rest: "calls (port c') = calls (port c)
          @ [Write (if b then [0x10, 0x02, 0x00, 0x01, 0x50, 0x01]
                    else [0x10, 0x02, 0x00, 0x02, 0x50, 0x01]),
             Write [0x11, 0x02, 0x00, 0x00, 0x50, 0x01], Read 6]"
      "3 < length (available (port c))"
      "available (port c) ! 3 = (if b then 1 else 2)"
    by blast+
  from c' have "enable c' = enable (c\<lparr>port := port c', enable := Some b\<rparr>)"
    by simp
  then show "enable c' = Some b"
    by simp
  from rest show "calls (port c') = calls (port c)
          @ [Write (if b then [0x10, 0x02, 0x00, 0x01, 0x50, 0x01]
                    else [0x10, 0x02, 0x00, 0x02, 0x50, 0x01]),
             Write [0x11, 0x02, 0x00, 0x00, 0x50, 0x01], Read 6]"
    and "3 < length (available (port c))"
    and "available (port c) ! 3 = (if b then 1 else 2)"
    by blast+
next
  assume "send c (if b then [0x10, 0x02, 0x00, 0x01, 0x50, 0x01]
                else [0x10, 0x02, 0x00, 0x02, 0x50, 0x01]) None = Inr (r, c1)
        \<and> get_enable c1 = Inr (b', c2) \<and> b' \<noteq> b"
  then show "set_enable c b = Inl (AssertionError, c2)"
    by (simp add: set_enable_def Let_def)
next
  assume "send c (if b then [0x10, 0x02, 0x00, 0x01, 0x50, 0x01]
                else [0x10, 0x02, 0x00, 0x02, 0x50, 0x01]) None = Inr (r, c1)
        \<and> get_enable c1 = Inr (b, c2)"
  then show "set_enable c b = Inr ((), c2)"
    by (simp add: set_enable_def Let_def)
next
  assume g: "get_enable c = Inr (b, c')"
  from get_enable_InrD [OF g]
  have c': "c' = c\<lparr>port := port c', enable := Some b\<rparr>"
    and len: "3 < length (available (port c))"
    and st: "available (port c) ! 3 = (if b then 1 else 2)"
    by blast+
  from c' have "enable c' = enable (c\<lparr>port := port c', enable := Some b\<rparr>)"
    by simp
  then show "enable c' = Some b"
    by simp
  show "3 < length (available (port c))"
    by (rule len)
  show "b \<longleftrightarrow> available (port c) ! 3 = 1"
    using st by (cases b) simp_all
  show "\<not> b \<longleftrightarrow> available (port c) ! 3 = 2"
    using st by (cases b) simp_all
next
  assume "3 < length (available (port c)) \<and> length (available (port c)) \<le> 6
        \<and> available (port c) ! 3 = 1"
  then show "get_enable c = Inr (True, state_of (get_enable c))"
    by (simp add: get_enable_eq Let_def state_of_simps)
next
  assume "3 < length (available (port c)) \<and> length (available (port c)) \<le> 6
        \<and> available (port c) ! 3 = 2"
  then show "get_enable c = Inr (False, state_of (get_enable c))"
    by (simp add: get_enable_eq Let_def state_of_simps)
qed

text \<open>The device confirms \<open>enabled\<close>: \<open>_set_enable(True)\<close> returns after the three port
  calls. The device reports \<open>disabled\<close>: \<open>_get_enable\<close> gives \<open>False\<close>, and
  \<open>_set_enable(True)\<close> raises AssertionError.\<close>

theorem set_enable_reads_back_witness:
  "set_enable enabled_reply_session True
     = Inr ((), state_of (set_enable enabled_reply_session True))
   \<and> enable (state_of (set_enable enabled_reply_session True)) = Some True
   \<and> calls (port (state_of (set_enable enabled_reply_session True)))
       = [Write [0x10, 0x02, 0x00, 0x01, 0x50, 0x01],
          Write [0x11, 0x02, 0x00, 0x00, 0x50, 0x01], Read 6]
   \<and> get_enable disabled_reply_session
       = Inr (False, state_of (get_enable disabled_reply_session))
   \<and> set_enable disabled_reply_session True
       = Inl (AssertionError,
              state_of (get_enable (state_of
                (send disabled_reply_session [0x10, 0x02, 0x00, 0x01, 0x50, 0x01] None))))"
proof -
  let ?on = "state_of (set_enable enabled_reply_session True)"
  let ?sent = "state_of (send disabled_reply_session [0x10, 0x02, 0x00, 0x01, 0x50, 0x01] None)"
  have ret: "set_enable enabled_reply_session True = Inr ((), ?on)"
    by code_simp
  have "enable ?on = Some True
      \<and> calls (port ?on) = calls (port enabled_reply_session)
          @ [Write (if True then [0x10, 0x02, 0x00, 0x01, 0x50, 0x01]
                    else [0x10, 0x02, 0x00, 0x02, 0x50, 0x01]),
             Write [0x11, 0x02, 0x00, 0x00, 0x50, 0x01], Read 6]
      \<and> 3 < length (available (port enabled_reply_session))
      \<and> available (port enabled_reply_session) ! 3 = (if True then 1 else 2)"
    using set_enable_reads_back [where c = enabled_reply_session and b = True and u = "()"
        and c' = ?on] ret
    by blast
  then have enabled: "enable ?on = Some True"
    and log: "calls (port ?on)
       = [Write [0x10, 0x02, 0x00, 0x01, 0x50, 0x01],
          Write [0x11, 0x02, 0x00, 0x00, 0x50, 0x01], Read 6]"
    by (simp_all add: enabled_reply_session_def idle_session_def)
  have status: "3 < length (available (port disabled_reply_session))
      \<and> length (available (port disabled_reply_session)) \<le> 6
      \<and> available (port disabled_reply_session) ! 3 = 2"
    by (simp add: disabled_reply_session_def idle_session_def available_def)
  have disabled: "get_enable disabled_reply_session
       = Inr (False, state_of (get_enable disabled_reply_session))"
    using set_enable_reads_back [where c = disabled_reply_session] status
    by blast
  have sent: "send disabled_reply_session (if True then [0x10, 0x02, 0x00, 0x01, 0x50, 0x01]
                else [0x10, 0x02, 0x00, 0x02, 0x50, 0x01]) None = Inr (None, ?sent)"
    by code_simp
  have reread: "get_enable ?sent = Inr (False, state_of (get_enable ?sent))"
    by code_simp
  have mismatch: "set_enable disabled_reply_session True
       = Inl (AssertionError, state_of (get_enable ?sent))"
    using set_enable_reads_back [where c = disabled_reply_session and b = True and r = None
        and ?c1.0 = ?sent and b' = False and ?c2.0 = "state_of (get_enable ?sent)"] sent reread
    by blast
  show ?thesis
    apply (intro conjI)
        apply (fact ret)
       apply (fact enabled)
      apply (fact log)
     apply (fact disabled)
    apply (fact mismatch)
    done
qed

section \<open>Construction\<close>

lemma get_info_eq:
  "get_info c =
     (let a = available (port c);
          c1 = c\<lparr>port := snd (port_read (port_write (port c) [0x05, 0x00, 0x00, 0x00, 0x50, 0x01]) 90)\<rparr>
      in if 90 < length a then Inl (AssertionError, c1)
         else case decode_ascii (py_slice a 10 18) of
                None \<Rightarrow> Inl (UnicodeDecodeError, c1)
              | Some m \<Rightarrow>
                  Inr (take 90 a,
                       c1\<lparr>model_number := Some m,
                          type := Some (from_bytes_little (py_slice a 18 20)),
                          serial_number := Some (from_bytes_little (py_slice a 6 10)),
                          firmware_v := Some (from_bytes_little (py_slice a 20 24)),
                          hardware_v := Some (from_bytes_little (py_slice a 84 86))\<rparr>))"
  by (auto simp: get_info_def send_Some Let_def py_slice_take not_le split: option.splits)

lemma get_info_Inr_calls:
  "get_info c = Inr (r, c') \<Longrightarrow>
   calls (port c') = calls (port c) @ [Write [0x05, 0x00, 0x00, 0x00, 0x50, 0x01], Read 90]"
  by (auto simp: get_info_eq Let_def calls_port_read calls_port_write
        split: if_splits option.splits)

lemma home_InrD:
  "home c = Inr (u, c') \<Longrightarrow>
   c' = c\<lparr>port := port c'\<rparr>
   \<and> calls (port c') = calls (port c) @ [Write [0x43, 0x04, 0x00, 0x00, 0x50, 0x01], Read 6]"
  by (auto simp: home_eq calls_port_read calls_port_write split: if_splits)

lemma get_position_mm_InrD:
  "get_position_mm c = Inr (x, c') \<Longrightarrow>
   c' = c\<lparr>port := port c', ch_id_bytes := ch_id_bytes c', position_mm := Some x\<rparr>
   \<and> calls (port c') = calls (port c) @ [Write [0x11, 0x04, 0x00, 0x00, 0x50, 0x01], Read 12]"
  by (auto simp: get_position_mm_eq calls_port_read calls_port_write split: if_splits)

lemma move_mm_Inr_frame:
  assumes "move_mm c mv rel blk = Inr (u, c')"
  shows "model_number c' = model_number c \<and> firmware_v c' = firmware_v c \<and> enable c' = enable c"
proof -
  from move_mm_InrD [OF assms] obtain m ch pos p where
    m: "moving c = Some m"
    and c': "c' = (state_of (resolve_pending c))
              \<lparr>position_mm := Some (if rel then pos + legalize mv else legalize mv),
               port := (if blk
                  then snd (port_read (port_write (port (state_of (resolve_pending c)))
                     ((if rel then [0x48, 0x04, 0x06, 0x00, 0xD0, 0x01]
                       else [0x53, 0x04, 0x06, 0x00, 0xD0, 0x01]) @ ch @ p)) 20)
                  else port_write (port (state_of (resolve_pending c)))
                     ((if rel then [0x48, 0x04, 0x06, 0x00, 0xD0, 0x01]
                       else [0x53, 0x04, 0x06, 0x00, 0xD0, 0x01]) @ ch @ p)),
               moving := Some (\<not> blk)\<rparr>"
    by blast
  show ?thesis
    unfolding c' by (cases m) (simp_all add: resolve_pending_eq [OF m] state_of_simps)
qed

lemma Controller_init_InrD:
  assumes "Controller_init (Some p) = Inr c"
  shows "\<exists>r c1 c2 c3 x c4.
      get_info \<lparr>port = p, model_number = None, type = None, serial_number = None,
                firmware_v = None, hardware_v = None, enable = None,
                ch_id_bytes = None, position_mm = None, moving = None\<rparr> = Inr (r, c1)
      \<and> model_number c1 = Some (''KBD101'' @ [CHR 0x00, CHR 0x00])
      \<and> firmware_v c1 = Some 131080
      \<and> set_enable c1 True = Inr ((), c2)
      \<and> home c2 = Inr ((), c3)
      \<and> get_position_mm c3 = Inr (x, c4)
      \<and> move_mm (c4\<lparr>moving := Some False\<rparr>) 0 False True = Inr ((), c)"
  using assms
  by (auto simp: Controller_init_def Let_def split: sum.splits prod.splits if_splits)

text \<open>
  C7. A construction that returns has made these port calls, in this order, after
  opening the port: identity request and its 90 bytes, enable command, state request
  and its 6 bytes, home command and its 6 bytes, position request and its 12 bytes, the
  absolute move to count 100 (0 mm) on the channel the position reply named, and the 20
  bytes of its completion. The object then holds the supported model and firmware, is
  enabled, idle, and at 0 mm. When \<open>serial.Serial\<close> raises, the construction raises
  IOError. When the identity reply decodes to another model or firmware, the
  construction raises AssertionError and only the identity request has been written.
\<close>

theorem construction_sequence:
  "(Controller_init (Some p) = Inr c \<longrightarrow>
      (\<exists>ch. ch_id_bytes c = Some ch
         \<and> calls (port c) = calls p
             @ [Write [0x05, 0x00, 0x00, 0x00, 0x50, 0x01], Read 90,
                Write [0x10, 0x02, 0x00, 0x01, 0x50, 0x01],
                Write [0x11, 0x02, 0x00, 0x00, 0x50, 0x01], Read 6,
                Write [0x43, 0x04, 0x00, 0x00, 0x50, 0x01], Read 6,
                Write [0x11, 0x04, 0x00, 0x00, 0x50, 0x01], Read 12,
                Write ([0x53, 0x04, 0x06, 0x00, 0xD0, 0x01] @ ch @ [0x64, 0x00, 0x00, 0x00]),
                Read 20])
      \<and> model_number c = Some (''KBD101'' @ [CHR 0x00, CHR 0x00])
      \<and> firmware_v c = Some 131080
      \<and> enable c = Some True \<and> position_mm c = Some 0 \<and> moving c = Some False)
   \<and> Controller_init None = Inl (IOError, None)
   \<and> (get_info \<lparr>port = p, model_number = None, type = None, serial_number = None,
                  firmware_v = None, hardware_v = None, enable = None,
                  ch_id_bytes = None, position_mm = None, moving = None\<rparr> = Inr (r, c1)
        \<and> (model_number c1 \<noteq> Some (''KBD101'' @ [CHR 0x00, CHR 0x00])
             \<or> firmware_v c1 \<noteq> Some 131080) \<longrightarrow>
      Controller_init (Some p) = Inl (AssertionError, Some c1)
      \<and> calls (port c1) = calls p @ [Write [0x05, 0x00, 0x00, 0x00, 0x50, 0x01], Read 90])"
proof (intro conjI impI)
  assume "Controller_init (Some p) = Inr c"
  from Controller_init_InrD [OF this] obtain r c1 c2 c3 x c4 where
    info: "get_info \<lparr>port = p, model_number = None, type = None, serial_number = None,
                firmware_v = None, hardware_v = None, enable = None,
                ch_id_bytes = None, position_mm = None, moving = None\<rparr> = Inr (r, c1)"
    and model: "model_number c1 = Some (''KBD101'' @ [CHR 0x00, CHR 0x00])"
    and firmware: "firmware_v c1 = Some 131080"
    and en: "set_enable c1 True = Inr ((), c2)"
    and hm: "home c2 = Inr ((), c3)"
    and qu: "get_position_mm c3 = Inr (x, c4)"
    and mv: "move_mm (c4\<lparr>moving := Some False\<rparr>) 0 False True = Inr ((), c)"
    by blast
  have l1: "calls (port c1) = calls p @ [Write [0x05, 0x00, 0x00, 0x00, 0x50, 0x01], Read 90]"
    using get_info_Inr_calls [OF info] by simp
  from set_enable_InrD [OF en] have
    c2: "c2 = c1\<lparr>port := port c2, enable := Some True\<rparr>"
    and l2: "calls (port c2) = calls (port c1)
          @ [Write [0x10, 0x02, 0x00, 0x01, 0x50, 0x01],
             Write [0x11, 0x02, 0x00, 0x00, 0x50, 0x01], Read 6]"
    by simp_all
  from home_InrD [OF hm] have
    c3: "c3 = c2\<lparr>port := port c3\<rparr>"
    and l3: "calls (port c3) = calls (port c2) @ [Write [0x43, 0x04, 0x00, 0x00, 0x50, 0x01], Read 6]"
    by simp_all
  from get_position_mm_InrD [OF qu] have
    c4: "c4 = c3\<lparr>port := port c4, ch_id_bytes := ch_id_bytes c4, position_mm := Some x\<rparr>"
    and l4: "calls (port c4) = calls (port c3) @ [Write [0x11, 0x04, 0x00, 0x00, 0x50, 0x01], Read 12]"
    by simp_all
  from move_mm_Inr_calls [OF mv] obtain ch p' where
    ch: "ch_id_bytes c = Some ch"
    and p': "to_bytes4_signed (py_round (0 * of_int EncCnt_per_mm) + offset_counts) = Some p'"
    and l5: "calls (port c) = calls (port c4)
           @ [Write ([0x53, 0x04, 0x06, 0x00, 0xD0, 0x01] @ ch @ p'), Read 20]"
    and idle: "moving c = Some False"
    by auto
  from p' have p'_eq: "p' = [0x64, 0x00, 0x00, 0x00]"
    by (simp add: py_round_0 offset_counts_eq to_bytes4_signed_100)
  have "calls (port c) = calls p
             @ [Write [0x05, 0x00, 0x00, 0x00, 0x50, 0x01], Read 90,
                Write [0x10, 0x02, 0x00, 0x01, 0x50, 0x01],
                Write [0x11, 0x02, 0x00, 0x00, 0x50, 0x01], Read 6,
                Write [0x43, 0x04, 0x00, 0x00, 0x50, 0x01], Read 6,
                Write [0x11, 0x04, 0x00, 0x00, 0x50, 0x01], Read 12,
                Write ([0x53, 0x04, 0x06, 0x00, 0xD0, 0x01] @ ch @ [0x64, 0x00, 0x00, 0x00]),
                Read 20]"
    unfolding l5 l4 l3 l2 l1 p'_eq by simp
  with ch show "\<exists>ch. ch_id_bytes c = Some ch
         \<and> calls (port c) = calls p
             @ [Write [0x05, 0x00, 0x00, 0x00, 0x50, 0x01], Read 90,
                Write [0x10, 0x02, 0x00, 0x01, 0x50, 0x01],
                Write [0x11, 0x02, 0x00, 0x00, 0x50, 0x01], Read 6,
                Write [0x43, 0x04, 0x00, 0x00, 0x50, 0x01], Read 6,
                Write [0x11, 0x04, 0x00, 0x00, 0x50, 0x01], Read 12,
                Write ([0x53, 0x04, 0x06, 0x00, 0xD0, 0x01] @ ch @ [0x64, 0x00, 0x00, 0x00]),
                Read 20]"
    by blast
  have f2: "model_number c2 = model_number c1" "firmware_v c2 = firmware_v c1"
    "enable c2 = Some True"
    by (subst c2, simp)+
  have f3: "model_number c3 = model_number c2" "firmware_v c3 = firmware_v c2"
    "enable c3 = enable c2"
    by (subst c3, simp)+
  have f4: "model_number c4 = model_number c3" "firmware_v c4 = firmware_v c3"
    "enable c4 = enable c3"
    by (subst c4, simp)+
  from move_mm_Inr_frame [OF mv] have f5: "model_number c = model_number c4"
    "firmware_v c = firmware_v c4" "enable c = enable c4"
    by simp_all
  show "model_number c = Some (''KBD101'' @ [CHR 0x00, CHR 0x00])"
    unfolding f5 f4 f3 f2 by (rule model)
  show "firmware_v c = Some 131080"
    unfolding f5 f4 f3 f2 by (rule firmware)
  show "enable c = Some True"
    unfolding f5 f4 f3 f2 by (rule refl)
  from move_mm_Inr_position [OF mv] show "position_mm c = Some 0"
    by (simp add: legalize_def py_round_0)
  show "moving c = Some False"
    by (rule idle)
next
  show "Controller_init None = Inl (IOError, None)"
    by (simp add: Controller_init_def)
next
  assume a: "get_info \<lparr>port = p, model_number = None, type = None, serial_number = None,
                  firmware_v = None, hardware_v = None, enable = None,
                  ch_id_bytes = None, position_mm = None, moving = None\<rparr> = Inr (r, c1)
        \<and> (model_number c1 \<noteq> Some (''KBD101'' @ [CHR 0x00, CHR 0x00])
             \<or> firmware_v c1 \<noteq> Some 131080)"
  then show "Controller_init (Some p) = Inl (AssertionError, Some c1)"
    by (auto simp: Controller_init_def Let_def)
  from a show "calls (port c1) = calls p @ [Write [0x05, 0x00, 0x00, 0x00, 0x50, 0x01], Read 90]"
    using get_info_Inr_calls [of _ r c1] by auto
qed

text \<open>In front of a KBD101 the construction returns after the eleven port calls; in
  front of firmware 131081 it raises AssertionError after the identity exchange.\<close>

theorem construction_sequence_witness:
  "Controller_init (Some fresh_port) = Inr (projr (Controller_init (Some fresh_port)))
   \<and> calls (port (projr (Controller_init (Some fresh_port))))
       = [Write [0x05, 0x00, 0x00, 0x00, 0x50, 0x01], Read 90,
          Write [0x10, 0x02, 0x00, 0x01, 0x50, 0x01],
          Write [0x11, 0x02, 0x00, 0x00, 0x50, 0x01], Read 6,
          Write [0x43, 0x04, 0x00, 0x00, 0x50, 0x01], Read 6,
          Write [0x11, 0x04, 0x00, 0x00, 0x50, 0x01], Read 12,
          Write [0x53, 0x04, 0x06, 0x00, 0xD0, 0x01, 0x01, 0x00, 0x64, 0x00, 0x00, 0x00],
          Read 20]
   \<and> projr (Controller_init (Some fresh_port))
       = (idle_session [])\<lparr>port := port (projr (Controller_init (Some fresh_port)))\<rparr>
   \<and> Controller_init (Some other_firmware_port)
       = Inl (AssertionError,
              Some (state_of (get_info
                \<lparr>port = other_firmware_port, model_number = None, type = None,
                 serial_number = None, firmware_v = None, hardware_v = None, enable = None,
                 ch_id_bytes = None, position_mm = None, moving = None\<rparr>)))
   \<and> written (calls (port (state_of (get_info
                \<lparr>port = other_firmware_port, model_number = None, type = None,
                 serial_number = None, firmware_v = None, hardware_v = None, enable = None,
                 ch_id_bytes = None, position_mm = None, moving = None\<rparr>))))
       = [[0x05, 0x00, 0x00, 0x00, 0x50, 0x01]]"
proof -
  let ?c = "projr (Controller_init (Some fresh_port))"
  let ?blank = "\<lparr>port = other_firmware_port, model_number = None, type = None,
                 serial_number = None, firmware_v = None, hardware_v = None, enable = None,
                 ch_id_bytes = None, position_mm = None, moving = None\<rparr>"
  have built: "Controller_init (Some fresh_port) = Inr ?c"
    by code_simp
  have same: "?c = (idle_session [])\<lparr>port := port ?c\<rparr>"
    by code_simp
  have channel: "ch_id_bytes ?c = Some [0x01, 0x00]"
    by (subst same) (simp add: idle_session_def)
  have "\<exists>ch. ch_id_bytes ?c = Some ch
         \<and> calls (port ?c) = calls fresh_port
             @ [Write [0x05, 0x00, 0x00, 0x00, 0x50, 0x01], Read 90,
                Write [0x10, 0x02, 0x00, 0x01, 0x50, 0x01],
                Write [0x11, 0x02, 0x00, 0x00, 0x50, 0x01], Read 6,
                Write [0x43, 0x04, 0x00, 0x00, 0x50, 0x01], Read 6,
                Write [0x11, 0x04, 0x00, 0x00, 0x50, 0x01], Read 12,
                Write ([0x53, 0x04, 0x06, 0x00, 0xD0, 0x01] @ ch @ [0x64, 0x00, 0x00, 0x00]),
                Read 20]"
    using construction_sequence [where p = fresh_port and c = ?c] built
    by blast
  then have order: "calls (port ?c)
       = [Write [0x05, 0x00, 0x00, 0x00, 0x50, 0x01], Read 90,
          Write [0x10, 0x02, 0x00, 0x01, 0x50, 0x01],
          Write [0x11, 0x02, 0x00, 0x00, 0x50, 0x01], Read 6,
          Write [0x43, 0x04, 0x00, 0x00, 0x50, 0x01], Read 6,
          Write [0x11, 0x04, 0x00, 0x00, 0x50, 0x01], Read 12,
          Write [0x53, 0x04, 0x06, 0x00, 0xD0, 0x01, 0x01, 0x00, 0x64, 0x00, 0x00, 0x00],
          Read 20]"
    using channel by (auto simp: fresh_port_def)
  have info: "get_info ?blank = Inr (info_reply[20 := 0x09], state_of (get_info ?blank))"
    by code_simp
  have other: "firmware_v (state_of (get_info ?blank)) \<noteq> Some 131080"
    by code_simp
  then have mismatch: "model_number (state_of (get_info ?blank))
        \<noteq> Some (''KBD101'' @ [CHR 0x00, CHR 0x00])
      \<or> firmware_v (state_of (get_info ?blank)) \<noteq> Some 131080"
    by (rule disjI2)
  have stopped: "Controller_init (Some other_firmware_port)
        = Inl (AssertionError, Some (state_of (get_info ?blank)))
      \<and> calls (port (state_of (get_info ?blank)))
        = calls other_firmware_port @ [Write [0x05, 0x00, 0x00, 0x00, 0x50, 0x01], Read 90]"
    using construction_sequence [where p = other_firmware_port
        and r = "info_reply[20 := 0x09]" and ?c1.0 = "state_of (get_info ?blank)"]
      info mismatch
    by blast
  then have refused: "Controller_init (Some other_firmware_port)
        = Inl (AssertionError, Some (state_of (get_info ?blank)))"
    by (rule conjunct1)
  from stopped have only: "written (calls (port (state_of (get_info ?blank))))
       = [[0x05, 0x00, 0x00, 0x00, 0x50, 0x01]]"
    by (simp add: other_firmware_port_def)
  show ?thesis
    apply (intro conjI)
        apply (fact built)
       apply (fact order)
      apply (fact same)
     apply (fact refused)
    apply (fact only)
    done
qed

end
